theory Spec2Isabelle
  imports Main "HOL-Library.Sublist"
begin

section \<open>Text as the program sees it\<close>

text \<open>
  The converter \<^verbatim>\<open>pyseer_to_phandango_plot.py\<close> works on Python strings. A \<^typ>\<open>char\<close>
  of this development stands for one code point below 256, and \<^typ>\<open>string\<close> for a Python
  \<^verbatim>\<open>str\<close> of such code points. The definitions below give the built-in string operations
  the script calls the meaning CPython gives them on that range.
\<close>

definition TAB :: string where
  "TAB = [CHR 0x09]"

definition NL :: string where
  "NL = [CHR 0x0A]"

text \<open>\<^verbatim>\<open>str.strip()\<close> with no argument removes the characters for which
  \<^verbatim>\<open>str.isspace()\<close> holds: below 256 these are 9-13, 28-32, 133 and 160.\<close>

definition is_space :: "char \<Rightarrow> bool" where
  "is_space c = (let n = (of_char c :: nat) in
     (9 \<le> n \<and> n \<le> 13) \<or> (28 \<le> n \<and> n \<le> 32) \<or> n = 133 \<or> n = 160)"

text \<open>\<^verbatim>\<open>int()\<close> and \<^verbatim>\<open>float()\<close> skip a narrower set around the number:
  9-13 and 32, and the non-ASCII spaces 133 and 160.\<close>

definition num_space :: "char \<Rightarrow> bool" where
  "num_space c = (let n = (of_char c :: nat) in
     (9 \<le> n \<and> n \<le> 13) \<or> n = 32 \<or> n = 133 \<or> n = 160)"

definition strip_num :: "string \<Rightarrow> string" where
  "strip_num s = rev (dropWhile num_space (rev (dropWhile num_space s)))"

text \<open>\<^verbatim>\<open>str.lower()\<close>: A-Z and the upper-case letters 192-222 (without the
  multiplication sign 215) move up by 32; every other code point below 256 stays.\<close>

definition lower_char :: "char \<Rightarrow> char" where
  "lower_char c = (let n = (of_char c :: nat) in
     if (65 \<le> n \<and> n \<le> 90) \<or> (192 \<le> n \<and> n \<le> 222 \<and> n \<noteq> 215)
     then char_of (n + 32) else c)"

definition lower :: "string \<Rightarrow> string" where
  "lower s = map lower_char s"

text \<open>\<^verbatim>\<open>s.split(sep)\<close> with a non-empty separator: the pieces between the
  non-overlapping occurrences of \<open>sep\<close>, found from the left. \<open>k\<close> counts the characters
  of a matched separator still to be dropped, \<open>cur\<close> holds the current piece reversed.
  An empty separator raises \<^verbatim>\<open>ValueError\<close>, so the result is optional.\<close>

fun split_go :: "string \<Rightarrow> nat \<Rightarrow> string \<Rightarrow> string \<Rightarrow> string list" where
  "split_go sep k cur [] = [rev cur]"
| "split_go sep k cur (c # cs) =
     (if 0 < k then split_go sep (k - 1) cur cs
      else if prefix sep (c # cs) then rev cur # split_go sep (length sep - 1) [] cs
      else split_go sep 0 (c # cur) cs)"

definition py_split :: "string \<Rightarrow> string \<Rightarrow> string list option" where
  "py_split s sep = (if sep = [] then None else Some (split_go sep 0 [] s))"

text \<open>\<^verbatim>\<open>sep.join(xs)\<close>.\<close>

fun join :: "string \<Rightarrow> string list \<Rightarrow> string" where
  "join sep [] = []"
| "join sep [x] = x"
| "join sep (x # y # ys) = x @ sep @ join sep (y # ys)"

text \<open>\<^verbatim>\<open>sub in s\<close> for strings.\<close>

fun contains :: "string \<Rightarrow> string \<Rightarrow> bool" where
  "contains sub [] = (sub = [])"
| "contains sub (c # cs) = (prefix sub (c # cs) \<or> contains sub cs)"

text \<open>\<^verbatim>\<open>xs[i]\<close>: a negative index counts from the end; out of range is
  \<^verbatim>\<open>IndexError\<close>, here \<open>None\<close>.\<close>

definition py_index :: "'a list \<Rightarrow> int \<Rightarrow> 'a option" where
  "py_index xs i =
     (if 0 \<le> i \<and> i < int (length xs) then Some (xs ! nat i)
      else if i < 0 \<and> - i \<le> int (length xs) then Some (xs ! nat (int (length xs) + i))
      else None)"

section \<open>Integers: \<^verbatim>\<open>int(s)\<close> and \<^verbatim>\<open>str(n)\<close>\<close>

definition digit_val :: "char \<Rightarrow> nat option" where
  "digit_val c = (let n = (of_char c :: nat) in
     if 48 \<le> n \<and> n \<le> 57 then Some (n - 48) else None)"

definition is_digit :: "char \<Rightarrow> bool" where
  "is_digit c = (digit_val c \<noteq> None)"

text \<open>A run of decimal digits in which single underscores may stand between two digits;
  the whole string must be such a run.\<close>

fun digits_us :: "string \<Rightarrow> nat list option" where
  "digits_us [] = None"
| "digits_us [c] = map_option (\<lambda>d. [d]) (digit_val c)"
| "digits_us (c # u # cs) =
     (case digit_val c of
        None \<Rightarrow> None
      | Some d \<Rightarrow> map_option (Cons d) (if u = CHR ''_'' then digits_us cs else digits_us (u # cs)))"

definition nat_of_digits :: "nat list \<Rightarrow> nat" where
  "nat_of_digits ds = foldl (\<lambda>a d. 10 * a + d) 0 ds"

text \<open>\<^verbatim>\<open>int(s)\<close> in base 10: surrounding white space, one optional sign, digits.
  \<open>lim\<close> is the interpreter's \<^verbatim>\<open>int_max_str_digits\<close> (4300 by default since
  CPython 3.11, 0 for no limit): more digit characters than that raise
  \<^verbatim>\<open>ValueError\<close> like any malformed text. \<open>None\<close> is \<^verbatim>\<open>ValueError\<close>.\<close>

definition py_int :: "nat \<Rightarrow> string \<Rightarrow> int option" where
  "py_int lim s =
     (let t = strip_num s;
          neg = (t \<noteq> [] \<and> hd t = CHR ''-'');
          body = (if t \<noteq> [] \<and> (hd t = CHR ''-'' \<or> hd t = CHR ''+'') then tl t else t)
      in case digits_us body of
           None \<Rightarrow> None
         | Some ds \<Rightarrow>
             if 0 < lim \<and> lim < length ds then None
             else Some (if neg then - int (nat_of_digits ds) else int (nat_of_digits ds)))"

definition digit_char :: "nat \<Rightarrow> char" where
  "digit_char d = char_of (48 + d)"

fun str_nat :: "nat \<Rightarrow> string" where
  "str_nat n = (if n < 10 then [digit_char n] else str_nat (n div 10) @ [digit_char (n mod 10)])"

declare str_nat.simps [simp del]

definition str_int :: "int \<Rightarrow> string" where
  "str_int i = (if i < 0 then CHR ''-'' # str_nat (nat (- i)) else str_nat (nat i))"

section \<open>Floating point: \<^verbatim>\<open>float(s)\<close>, \<^verbatim>\<open>p <= 0.0\<close>, \<^verbatim>\<open>str(x)\<close>\<close>

text \<open>
  A parsed p-value is kept as the number its text denotes: not-a-number, an infinity with
  its sign (\<open>True\<close> is minus), or sign, decimal mantissa and decimal exponent. The double
  that \<^verbatim>\<open>float()\<close> returns is that number correctly rounded (to nearest, ties to even);
  the program looks at it in two ways only, the test \<^verbatim>\<open>p <= 0.0\<close> and the text of
  \<^verbatim>\<open>-math.log10(p)\<close>.
\<close>

datatype pyfloat = NaN | Inf bool | Dec bool nat int

text \<open>\<^verbatim>\<open>float()\<close> first checks the underscores of the whole text (each one directly
  between two digits; \<open>prev\<close> is the character before) and removes them.\<close>

fun us_scan :: "char \<Rightarrow> string \<Rightarrow> bool" where
  "us_scan prev [] = (prev \<noteq> CHR ''_'')"
| "us_scan prev (c # cs) =
     (if c = CHR ''_'' then is_digit prev \<and> us_scan c cs
      else (prev = CHR ''_'' \<longrightarrow> is_digit c) \<and> us_scan c cs)"

definition digits_value :: "string \<Rightarrow> nat" where
  "digits_value ds = nat_of_digits (map (\<lambda>c. (of_char c :: nat) - 48) ds)"

text \<open>The exponent part: nothing, or \<^verbatim>\<open>e\<close>/\<^verbatim>\<open>E\<close>, an optional sign and at least
  one digit, up to the end of the text.\<close>

definition parse_exponent :: "string \<Rightarrow> int option" where
  "parse_exponent r =
     (case r of
        [] \<Rightarrow> Some 0
      | c # r1 \<Rightarrow>
          if c = CHR ''e'' \<or> c = CHR ''E'' then
            (let neg = (r1 \<noteq> [] \<and> hd r1 = CHR ''-'');
                 ds = (if r1 \<noteq> [] \<and> (hd r1 = CHR ''-'' \<or> hd r1 = CHR ''+'') then tl r1 else r1)
             in if ds \<noteq> [] \<and> list_all is_digit ds
                then Some (if neg then - int (digits_value ds) else int (digits_value ds))
                else None)
          else None)"

text \<open>Digits, an optional point with more digits (at least one digit in all), an optional
  exponent: the value is \<open>mantissa * 10 ^ exponent\<close>.\<close>

definition parse_decimal :: "string \<Rightarrow> (nat \<times> int) option" where
  "parse_decimal s =
     (let ip = takeWhile is_digit s;
          r1 = dropWhile is_digit s;
          fp = (case r1 of [] \<Rightarrow> [] | c # r \<Rightarrow> if c = CHR ''.'' then takeWhile is_digit r else []);
          r2 = (case r1 of [] \<Rightarrow> [] | c # r \<Rightarrow> if c = CHR ''.'' then dropWhile is_digit r else r1)
      in if ip = [] \<and> fp = [] then None
         else case parse_exponent r2 of
                None \<Rightarrow> None
              | Some e \<Rightarrow> Some (digits_value (ip @ fp), e - int (length fp)))"

text \<open>\<^verbatim>\<open>float(s)\<close>; \<open>None\<close> is \<^verbatim>\<open>ValueError\<close>. The words
  \<^verbatim>\<open>inf\<close>, \<^verbatim>\<open>infinity\<close> and \<^verbatim>\<open>nan\<close> are read in any letter case.\<close>

definition py_float :: "string \<Rightarrow> pyfloat option" where
  "py_float s =
     (if \<not> us_scan (CHR 0x00) s then None
      else
        let t = strip_num (filter (\<lambda>c. c \<noteq> CHR ''_'') s);
            neg = (t \<noteq> [] \<and> hd t = CHR ''-'');
            body = (if t \<noteq> [] \<and> (hd t = CHR ''-'' \<or> hd t = CHR ''+'') then tl t else t)
        in if lower body = ''inf'' \<or> lower body = ''infinity'' then Some (Inf neg)
           else if lower body = ''nan'' then Some NaN
           else map_option (\<lambda>(m, e). Dec neg m e) (parse_decimal body))"

text \<open>\<^verbatim>\<open>p <= 0.0\<close> on the double. Not-a-number compares false; minus infinity, every
  number with a minus sign (down to \<^verbatim>\<open>-0.0\<close>) and zero compare true; a positive
  decimal rounds to \<^verbatim>\<open>0.0\<close> exactly when it is at most \<open>2 ^ -1075\<close>, half the smallest
  positive double.\<close>

fun le_zero :: "pyfloat \<Rightarrow> bool" where
  "le_zero NaN = False"
| "le_zero (Inf neg) = neg"
| "le_zero (Dec neg m e) = (neg \<or> m = 0 \<or> (e < 0 \<and> m * 2 ^ 1075 \<le> 10 ^ nat (- e)))"

text \<open>The transformed value: positive infinity, or \<^verbatim>\<open>-math.log10(p)\<close> for a \<open>p\<close>
  that is not \<open>\<le> 0\<close>.\<close>

datatype neglog = PosInf | NegLog10 pyfloat

text \<open>
  What the interpreter and the platform supply: the digit limit of \<^verbatim>\<open>int()\<close>, and the
  text \<^verbatim>\<open>str(-math.log10(p))\<close> of a logarithm, which depends on the C library and is
  left open.
\<close>

record runtime =
  int_max_str_digits :: nat
  str_neglog10 :: "pyfloat \<Rightarrow> string"

text \<open>\<^verbatim>\<open>str(x)\<close> of the transformed value; \<^verbatim>\<open>str(float("inf"))\<close> is \<^verbatim>\<open>inf\<close>.\<close>

definition str_float :: "runtime \<Rightarrow> neglog \<Rightarrow> string" where
  "str_float rt x = (case x of PosInf \<Rightarrow> ''inf'' | NegLog10 p \<Rightarrow> str_neglog10 rt p)"

section \<open>The converter\<close>

subsection \<open>Configuration, files and errors\<close>

text \<open>The command line of \<^verbatim>\<open>parse_args\<close>, after parsing: every option with its
  value (\<^verbatim>\<open>--pcol\<close> may be absent).\<close>

record args =
  pyseer :: string
  out :: string
  chr_index :: string
  variant_col :: string
  pcol :: "string option"
  variant_delim :: string
  bp_field_index :: int
  snp_name :: string
  r2 :: string
  skip_nonpositive_p :: bool
  allow_missing_bp :: bool

text \<open>The files by path, holding text, and the lines written to the error stream.\<close>

record world =
  files :: "string \<rightharpoonup> string"
  stderr :: "string list"

text \<open>Every way the run ends early: the \<^verbatim>\<open>SystemExit\<close>s of \<^verbatim>\<open>main\<close> in source
  order, and the two exceptions nothing catches (the input cannot be opened;
  \<^verbatim>\<open>split\<close> with an empty delimiter). Each ends the process with a non-zero status.\<close>

datatype error =
    CannotOpenInput
  | EmptyInput
  | VariantColNotFound
  | PColUndetermined
  | EmptySeparator
  | BPFieldMissing string
  | BPNotInteger string string
  | PNotNumeric string string

definition exit_status :: "error option \<Rightarrow> nat" where
  "exit_status r = (case r of None \<Rightarrow> 0 | Some e \<Rightarrow> 1)"

definition DEFAULT_HEADER :: string where
  "DEFAULT_HEADER =
     ''#CHR'' @ TAB @ ''SNP'' @ TAB @ ''BP'' @ TAB @ ''minLOG10(P)'' @ TAB @ ''log10(p)'' @ TAB @ ''r^2''"

subsection \<open>Reading the input\<close>

text \<open>The file is opened in text mode: \<^verbatim>\<open>\r\n\<close> and a lone \<^verbatim>\<open>\r\<close> arrive as
  \<^verbatim>\<open>\n\<close>.\<close>

fun universal_newlines :: "string \<Rightarrow> string" where
  "universal_newlines [] = []"
| "universal_newlines [c] = (if c = CHR 0x0D then NL else [c])"
| "universal_newlines (c # d # cs) =
     (if c = CHR 0x0D \<and> d = CHR 0x0A then CHR 0x0A # universal_newlines cs
      else if c = CHR 0x0D then CHR 0x0A # universal_newlines (d # cs)
      else c # universal_newlines (d # cs))"

text \<open>\<^verbatim>\<open>[ln.rstrip("\n") for ln in f if ln.strip()]\<close>: the pieces between the newlines
  that hold a character other than white space (the piece after a final newline is empty
  and goes with the blank ones).\<close>

definition read_lines :: "string \<Rightarrow> string list" where
  "read_lines txt =
     filter (\<lambda>ln. \<not> list_all is_space ln) (split_go NL 0 [] (universal_newlines txt))"

subsection \<open>Resolving the two columns\<close>

text \<open>The header of an input: the fields of its first non-blank line.\<close>

definition header_of :: "string \<Rightarrow> string list" where
  "header_of txt = split_go TAB 0 [] (hd (read_lines txt))"

text \<open>\<^verbatim>\<open>{name: i for i, name in enumerate(header)}\<close>: a later entry overwrites an
  earlier one.\<close>

definition col_index :: "string list \<Rightarrow> (string \<rightharpoonup> nat)" where
  "col_index header = foldl (\<lambda>m (i, name). m(name \<mapsto> i)) Map.empty (enumerate 0 header)"

definition candidates :: "string list" where
  "candidates = [''lrt-pvalue'', ''pvalue'', ''p-value'', ''pval'', ''wald-pvalue'',
                 ''score-pvalue'', ''filter-pvalue'']"

text \<open>\<^verbatim>\<open>{h.lower(): h for h in header}\<close>.\<close>

definition lower_map :: "string list \<Rightarrow> (string \<rightharpoonup> string)" where
  "lower_map header = foldl (\<lambda>m h. m(lower h \<mapsto> h)) Map.empty header"

definition heuristic :: "string \<Rightarrow> bool" where
  "heuristic h = (contains ''pvalue'' (lower h) \<or> lower h = ''p'' \<or> lower h = ''pval'')"

definition detect_pcol :: "string list \<Rightarrow> string option" where
  "detect_pcol header =
     (case find (\<lambda>c. lower_map header c \<noteq> None) candidates of
        Some c \<Rightarrow> lower_map header c
      | None \<Rightarrow> find heuristic header)"

text \<open>Lines 132-156 of \<^verbatim>\<open>main\<close>: from the non-blank lines to the two column indices
  and the name of the p-value column.\<close>

definition resolve :: "args \<Rightarrow> string list \<Rightarrow> error + (nat \<times> nat \<times> string)" where
  "resolve a lines =
     (if lines = [] then Inl EmptyInput
      else
        let header = split_go TAB 0 [] (hd lines) in
        case col_index header (variant_col a) of
          None \<Rightarrow> Inl VariantColNotFound
        | Some var_i \<Rightarrow>
            (case (case pcol a of None \<Rightarrow> detect_pcol header | Some p \<Rightarrow> Some p) of
               None \<Rightarrow> Inl PColUndetermined
             | Some pc \<Rightarrow>
                 (case col_index header pc of
                    None \<Rightarrow> Inl PColUndetermined
                  | Some p_i \<Rightarrow> Inr (var_i, p_i, pc))))"

subsection \<open>The row loop\<close>

text \<open>What the loop changes: the output lines and the two counters.\<close>

record acc =
  out_rows :: "string list"
  bad_bp :: nat
  bad_p :: nat

definition safe_neglog10 :: "pyfloat \<Rightarrow> neglog" where
  "safe_neglog10 p = (if le_zero p then PosInf else NegLog10 p)"

text \<open>The line appended for a row (lines 219-230).\<close>

definition plot_row :: "runtime \<Rightarrow> args \<Rightarrow> int \<Rightarrow> neglog \<Rightarrow> string" where
  "plot_row rt a bp_int x =
     join TAB [chr_index a, snp_name a, str_int bp_int, str_float rt x, str_float rt x, r2 a]"

text \<open>The loop body (lines 165-230) on one line of the input: \<open>Inr\<close> is the state the
  next row starts from (after \<^verbatim>\<open>continue\<close> or at the end of the body), \<open>Inl\<close> ends
  the run.\<close>

definition process_row :: "runtime \<Rightarrow> args \<Rightarrow> nat \<Rightarrow> nat \<Rightarrow> acc \<Rightarrow> string \<Rightarrow> error + acc" where
  "process_row rt a var_i p_i st ln =
     (let parts = split_go TAB 0 [] ln in
      if length parts \<le> max var_i p_i then Inr st
      else
        let variant = parts ! var_i; p_str = parts ! p_i in
        case py_split variant (variant_delim a) of
          None \<Rightarrow> Inl EmptySeparator
        | Some flds \<Rightarrow>
            (case py_index flds (bp_field_index a) of
               None \<Rightarrow>
                 if allow_missing_bp a then Inr (st\<lparr>bad_bp := bad_bp st + 1\<rparr>)
                 else Inl (BPFieldMissing variant)
             | Some bp \<Rightarrow>
                 (case py_int (int_max_str_digits rt) bp of
                    None \<Rightarrow>
                      if allow_missing_bp a then Inr (st\<lparr>bad_bp := bad_bp st + 1\<rparr>)
                      else Inl (BPNotInteger bp variant)
                  | Some bp_int \<Rightarrow>
                      (case py_float p_str of
                         None \<Rightarrow>
                           if skip_nonpositive_p a then Inr (st\<lparr>bad_p := bad_p st + 1\<rparr>)
                           else Inl (PNotNumeric p_str variant)
                       | Some p_val \<Rightarrow>
                           if le_zero p_val then
                             (if skip_nonpositive_p a then Inr (st\<lparr>bad_p := bad_p st + 1\<rparr>)
                              else Inr (st\<lparr>out_rows := out_rows st @ [plot_row rt a bp_int PosInf],
                                          bad_p := bad_p st + 1\<rparr>))
                           else
                             Inr (st\<lparr>out_rows := out_rows st
                                        @ [plot_row rt a bp_int (safe_neglog10 p_val)]\<rparr>)))))"

fun process_rows :: "runtime \<Rightarrow> args \<Rightarrow> nat \<Rightarrow> nat \<Rightarrow> acc \<Rightarrow> string list \<Rightarrow> error + acc" where
  "process_rows rt a var_i p_i st [] = Inr st"
| "process_rows rt a var_i p_i st (ln # lns) =
     (case process_row rt a var_i p_i st ln of
        Inl e \<Rightarrow> Inl e
      | Inr st' \<Rightarrow> process_rows rt a var_i p_i st' lns)"

definition init_acc :: acc where
  "init_acc = \<lparr>out_rows = [DEFAULT_HEADER], bad_bp = 0, bad_p = 0\<rparr>"

subsection \<open>Writing the result\<close>

text \<open>The text written to the output file (line 233).\<close>

definition plot_text :: "acc \<Rightarrow> string" where
  "plot_text st = join NL (out_rows st) @ NL"

text \<open>The lines for the error stream (lines 235-242).\<close>

definition info_line :: "args \<Rightarrow> string \<Rightarrow> acc \<Rightarrow> string" where
  "info_line a pc st =
     ''[INFO] Wrote '' @ str_int (int (length (out_rows st)) - 1) @ '' variants to '' @ out a
     @ '' (pcol='' @ [CHR 0x27] @ pc @ [CHR 0x27] @ '', variant_col='' @ [CHR 0x27]
     @ variant_col a @ [CHR 0x27] @ '').'' @ NL"

definition warn_bp :: "acc \<Rightarrow> string" where
  "warn_bp st = ''[WARN] Skipped/failed BP parsing for '' @ str_int (int (bad_bp st))
     @ '' rows.'' @ NL"

definition warn_p :: "acc \<Rightarrow> string" where
  "warn_p st = ''[WARN] Encountered non-positive/non-numeric p for '' @ str_int (int (bad_p st))
     @ '' rows.'' @ NL"

definition report :: "args \<Rightarrow> string \<Rightarrow> acc \<Rightarrow> string list" where
  "report a pc st =
     [info_line a pc st]
     @ (if bad_bp st \<noteq> 0 then [warn_bp st] else [])
     @ (if bad_p st \<noteq> 0 then [warn_p st] else [])"

text \<open>\<^verbatim>\<open>main\<close>: the status of the run (\<open>None\<close> is a normal end) and the world it
  leaves. The output file is opened and written after the loop, and only there.\<close>

definition main :: "runtime \<Rightarrow> args \<Rightarrow> world \<Rightarrow> error option \<times> world" where
  "main rt a w =
     (case files w (pyseer a) of
        None \<Rightarrow> (Some CannotOpenInput, w)
      | Some txt \<Rightarrow>
          let lines = read_lines txt in
          case resolve a lines of
            Inl e \<Rightarrow> (Some e, w)
          | Inr (var_i, p_i, pc) \<Rightarrow>
              (case process_rows rt a var_i p_i init_acc (tl lines) of
                 Inl e \<Rightarrow> (Some e, w)
               | Inr st \<Rightarrow>
                   (None, w\<lparr>files := (files w)(out a \<mapsto> plot_text st),
                            stderr := stderr w @ report a pc st\<rparr>)))"

section \<open>The output file, read back\<close>

text \<open>The lines of a text file: the pieces between the newlines, without the empty piece
  that follows a final newline.\<close>

definition file_lines :: "string \<Rightarrow> string list" where
  "file_lines content =
     (let ps = split_go NL 0 [] content in if last ps = [] then butlast ps else ps)"

text \<open>A text is plain when it holds neither a tab nor a newline, the two separators of the
  output format. The labels of the command line are written as they are given, plain or
  not. The text of a floating-point number is plain in CPython; for the open runtime this
  is a condition.\<close>

definition plain :: "string \<Rightarrow> bool" where
  "plain s = (CHR 0x09 \<notin> set s \<and> CHR 0x0A \<notin> set s)"

definition float_text_plain :: "runtime \<Rightarrow> bool" where
  "float_text_plain rt = (\<forall>p. plain (str_neglog10 rt p))"

section \<open>What the loop does to a row\<close>

text \<open>
  The conditions of the loop body, named so that the rows of an input can be counted by
  what became of them. A row is short when it has too few fields for both columns
  (line 166).
\<close>

definition short_row :: "nat \<Rightarrow> nat \<Rightarrow> string \<Rightarrow> bool" where
  "short_row var_i p_i ln = (length (split_go TAB 0 [] ln) \<le> max var_i p_i)"

text \<open>The text of the position field of the row's variant identifier (lines 169-175), when
  the identifier has such a field.\<close>

definition position_field :: "args \<Rightarrow> nat \<Rightarrow> string \<Rightarrow> string option" where
  "position_field a var_i ln =
     (case py_split (split_go TAB 0 [] ln ! var_i) (variant_delim a) of
        None \<Rightarrow> None
      | Some flds \<Rightarrow> py_index flds (bp_field_index a))"

text \<open>The position of the row (lines 172-194): the integer in that field.\<close>

definition row_position :: "runtime \<Rightarrow> args \<Rightarrow> nat \<Rightarrow> string \<Rightarrow> int option" where
  "row_position rt a var_i ln =
     (case position_field a var_i ln of
        None \<Rightarrow> None
      | Some bp \<Rightarrow> py_int (int_max_str_digits rt) bp)"

text \<open>The p-value of the row (line 198).\<close>

definition row_pvalue :: "nat \<Rightarrow> string \<Rightarrow> pyfloat option" where
  "row_pvalue p_i ln = py_float (split_go TAB 0 [] ln ! p_i)"

text \<open>A row reaches the p-value step when it is long enough and its position was read.\<close>

definition reaches_pvalue :: "runtime \<Rightarrow> args \<Rightarrow> nat \<Rightarrow> nat \<Rightarrow> string \<Rightarrow> bool" where
  "reaches_pvalue rt a var_i p_i ln =
     (\<not> short_row var_i p_i ln \<and> row_position rt a var_i ln \<noteq> None)"

text \<open>Skipped for its position: long enough, no position could be read, and
  \<^verbatim>\<open>--allow-missing-bp\<close> turned the failure into a skip.\<close>

definition position_skipped :: "runtime \<Rightarrow> args \<Rightarrow> nat \<Rightarrow> nat \<Rightarrow> string \<Rightarrow> bool" where
  "position_skipped rt a var_i p_i ln =
     (\<not> short_row var_i p_i ln \<and> variant_delim a \<noteq> [] \<and> row_position rt a var_i ln = None
      \<and> allow_missing_bp a)"

text \<open>A bad p-value: the row reaches the p-value step and the field is no number or a
  number \<open>\<le> 0\<close>.\<close>

definition bad_pvalue :: "runtime \<Rightarrow> args \<Rightarrow> nat \<Rightarrow> nat \<Rightarrow> string \<Rightarrow> bool" where
  "bad_pvalue rt a var_i p_i ln =
     (reaches_pvalue rt a var_i p_i ln
      \<and> (case row_pvalue p_i ln of None \<Rightarrow> True | Some p \<Rightarrow> le_zero p))"

text \<open>Skipped for its p-value: a bad p-value under \<^verbatim>\<open>--skip-nonpositive-p\<close>.\<close>

definition pvalue_skipped :: "runtime \<Rightarrow> args \<Rightarrow> nat \<Rightarrow> nat \<Rightarrow> string \<Rightarrow> bool" where
  "pvalue_skipped rt a var_i p_i ln = (bad_pvalue rt a var_i p_i ln \<and> skip_nonpositive_p a)"

text \<open>What a row contributes to the output: its position and transformed value, or
  nothing.\<close>

definition row_output :: "runtime \<Rightarrow> args \<Rightarrow> nat \<Rightarrow> nat \<Rightarrow> string \<Rightarrow> (int \<times> neglog) option" where
  "row_output rt a var_i p_i ln =
     (if short_row var_i p_i ln then None
      else case row_position rt a var_i ln of
             None \<Rightarrow> None
           | Some n \<Rightarrow>
               (case row_pvalue p_i ln of
                  None \<Rightarrow> None
                | Some p \<Rightarrow>
                    if le_zero p \<and> skip_nonpositive_p a then None
                    else Some (n, safe_neglog10 p)))"

text \<open>Emitted with positive infinity: a number \<open>\<le> 0\<close> without
  \<^verbatim>\<open>--skip-nonpositive-p\<close>.\<close>

definition emitted_inf :: "runtime \<Rightarrow> args \<Rightarrow> nat \<Rightarrow> nat \<Rightarrow> string \<Rightarrow> bool" where
  "emitted_inf rt a var_i p_i ln = (bad_pvalue rt a var_i p_i ln \<and> \<not> skip_nonpositive_p a
     \<and> row_pvalue p_i ln \<noteq> None)"

text \<open>The two failures of strict mode: no position could be read and
  \<^verbatim>\<open>--allow-missing-bp\<close> is off; the p-value step is reached, the field is no
  number and \<^verbatim>\<open>--skip-nonpositive-p\<close> is off.\<close>

definition position_failure :: "runtime \<Rightarrow> args \<Rightarrow> nat \<Rightarrow> nat \<Rightarrow> string \<Rightarrow> bool" where
  "position_failure rt a var_i p_i ln =
     (\<not> short_row var_i p_i ln \<and> row_position rt a var_i ln = None \<and> \<not> allow_missing_bp a)"

definition pvalue_failure :: "runtime \<Rightarrow> args \<Rightarrow> nat \<Rightarrow> nat \<Rightarrow> string \<Rightarrow> bool" where
  "pvalue_failure rt a var_i p_i ln =
     (reaches_pvalue rt a var_i p_i ln \<and> row_pvalue p_i ln = None \<and> \<not> skip_nonpositive_p a)"

text \<open>The first candidate name that some header name lower-cases to.\<close>

definition first_candidate :: "string list \<Rightarrow> string option" where
  "first_candidate header = find (\<lambda>c. list_ex (\<lambda>h. lower h = c) header) candidates"

section \<open>Sample runs\<close>

text \<open>A runtime with the default digit limit that prints the logarithm of 0.01 as CPython
  does; the sample inputs hold no other positive p-value.\<close>

definition rt0 :: runtime where
  "rt0 = \<lparr>int_max_str_digits = 4300,
           str_neglog10 = (\<lambda>p. if p = Dec False 1 (- 2) then ''2.0'' else ''?'')\<rparr>"

text \<open>The command line with every default, and the same with both leniency switches.\<close>

definition a_default :: args where
  "a_default = \<lparr>pyseer = ''in.txt'', out = ''out.plot'', chr_index = ''26'',
     variant_col = ''variant'', pcol = None, variant_delim = ''_'', bp_field_index = 1,
     snp_name = ''.'', r2 = ''0'', skip_nonpositive_p = False, allow_missing_bp = False\<rparr>"

definition a_lenient :: args where
  "a_lenient = a_default\<lparr>skip_nonpositive_p := True, allow_missing_bp := True\<rparr>"

definition world_of :: "string \<Rightarrow> world" where
  "world_of txt = \<lparr>files = [''in.txt'' \<mapsto> txt], stderr = []\<rparr>"

text \<open>Five data rows: one good, one short, one without a readable position, one with a
  p-value that is no number, one with the p-value 0.\<close>

definition txt_mixed :: string where
  "txt_mixed =
     ''variant'' @ TAB @ ''pvalue'' @ NL
     @ ''c_5_A_T'' @ TAB @ ''0.01'' @ NL
     @ ''short'' @ NL
     @ ''c_x_A_T'' @ TAB @ ''0.01'' @ NL
     @ ''c_7_A_T'' @ TAB @ ''abc'' @ NL
     @ ''c_8_A_T'' @ TAB @ ''0'' @ NL"

definition rows_mixed :: "string list" where
  "rows_mixed = [''c_5_A_T'' @ TAB @ ''0.01'', ''short'', ''c_x_A_T'' @ TAB @ ''0.01'',
                 ''c_7_A_T'' @ TAB @ ''abc'', ''c_8_A_T'' @ TAB @ ''0'']"

definition row_5 :: string where
  "row_5 = ''26'' @ TAB @ ''.'' @ TAB @ ''5'' @ TAB @ ''2.0'' @ TAB @ ''2.0'' @ TAB @ ''0''"


definition txt_zero :: string where
  "txt_zero = ''variant'' @ TAB @ ''pvalue'' @ NL @ ''c_8_A_T'' @ TAB @ ''0'' @ NL"

definition txt_nofield :: string where
  "txt_nofield = ''variant'' @ TAB @ ''pvalue'' @ NL @ ''abc'' @ TAB @ ''0'' @ NL"

definition row_inf_8 :: string where
  "row_inf_8 = ''26'' @ TAB @ ''.'' @ TAB @ ''8'' @ TAB @ ''inf'' @ TAB @ ''inf'' @ TAB @ ''0''"

text \<open>Inputs for the early ends: only blank lines; a header that spells the variant column
  with a capital; a header without any p-value column.\<close>

definition txt_blank :: string where
  "txt_blank = NL @ '' '' @ TAB @ NL"

definition txt_capital :: string where
  "txt_capital = ''Variant'' @ TAB @ ''pvalue'' @ NL @ ''c_5_A_T'' @ TAB @ ''0.01'' @ NL"

definition txt_nopcol :: string where
  "txt_nopcol = ''variant'' @ TAB @ ''beta'' @ NL @ ''c_5_A_T'' @ TAB @ ''0.01'' @ NL"


text \<open>Headers for the auto-detection: the one of the specification's example; one in which
  three names lower-case to \<^verbatim>\<open>pvalue\<close>; one that only the fallback matches.\<close>

definition hdr_lrt :: "string list" where
  "hdr_lrt = [''variant'', ''lrt-pvalue'', ''other'']"

definition hdr_cases :: "string list" where
  "hdr_cases = [''variant'', ''PVALUE'', ''wald-pvalue'', ''PValue'', ''x'']"

definition hdr_fallback :: "string list" where
  "hdr_fallback = [''variant'', ''My-Pvalue'', ''P'', ''adj-pvalue'']"

text \<open>One good row, and three command lines whose labels are not plain: a newline in the
  r2 placeholder, a tab in the site label, a tab in the chromosome label.\<close>

definition txt_one :: string where
  "txt_one = ''variant'' @ TAB @ ''pvalue'' @ NL @ ''c_5_A_T'' @ TAB @ ''0.01'' @ NL"

definition a_r2_newline :: args where
  "a_r2_newline = a_default\<lparr>r2 := ''0'' @ NL @ ''x''\<rparr>"

definition a_snp_tab :: args where
  "a_snp_tab = a_default\<lparr>snp_name := ''a'' @ TAB @ ''b''\<rparr>"

definition a_chr_tab :: args where
  "a_chr_tab = a_default\<lparr>chr_index := ''chr'' @ TAB @ ''1''\<rparr>"

section \<open>Properties\<close>


lemmas row_defs = short_row_def position_field_def row_position_def row_pvalue_def
  reaches_pvalue_def position_skipped_def bad_pvalue_def pvalue_skipped_def row_output_def
  emitted_inf_def position_failure_def pvalue_failure_def

lemma py_split_None: "py_split s sep = None \<longleftrightarrow> sep = []"
  by (simp add: py_split_def)

subsection \<open>The loop body, by what becomes of the row\<close>

lemma process_row_short:
  "short_row var_i p_i ln \<Longrightarrow> process_row rt a var_i p_i st ln = Inr st"
  by (simp add: process_row_def short_row_def Let_def)

lemma process_row_emit:
  "row_output rt a var_i p_i ln = Some (n, x) \<Longrightarrow>
   process_row rt a var_i p_i st ln =
     Inr (st\<lparr>out_rows := out_rows st @ [plot_row rt a n x],
             bad_p := bad_p st + (if x = PosInf then 1 else 0)\<rparr>)"
  by (auto simp: process_row_def row_defs Let_def safe_neglog10_def
      split: option.splits if_splits)

lemma process_row_position_skipped:
  "position_skipped rt a var_i p_i ln \<Longrightarrow>
   process_row rt a var_i p_i st ln = Inr (st\<lparr>bad_bp := bad_bp st + 1\<rparr>)"
  by (auto simp: process_row_def row_defs Let_def py_split_def split: option.splits if_splits)

lemma process_row_pvalue_skipped:
  "pvalue_skipped rt a var_i p_i ln \<Longrightarrow>
   process_row rt a var_i p_i st ln = Inr (st\<lparr>bad_p := bad_p st + 1\<rparr>)"
  by (auto simp: process_row_def row_defs Let_def split: option.splits)

lemma process_row_Inr_cases:
  assumes "process_row rt a var_i p_i st ln = Inr st'"
  shows "short_row var_i p_i ln \<or> position_skipped rt a var_i p_i ln
         \<or> pvalue_skipped rt a var_i p_i ln \<or> row_output rt a var_i p_i ln \<noteq> None"
  using assms
  by (auto simp: process_row_def row_defs Let_def py_split_def split: option.splits if_splits)

lemma fates_exclusive:
  "\<not> (short_row var_i p_i ln \<and> position_skipped rt a var_i p_i ln)"
  "\<not> (short_row var_i p_i ln \<and> pvalue_skipped rt a var_i p_i ln)"
  "\<not> (short_row var_i p_i ln \<and> row_output rt a var_i p_i ln \<noteq> None)"
  "\<not> (position_skipped rt a var_i p_i ln \<and> pvalue_skipped rt a var_i p_i ln)"
  "\<not> (position_skipped rt a var_i p_i ln \<and> row_output rt a var_i p_i ln \<noteq> None)"
  "\<not> (pvalue_skipped rt a var_i p_i ln \<and> row_output rt a var_i p_i ln \<noteq> None)"
  by (auto simp: row_defs split: option.splits if_splits)


lemma process_row_step:
  assumes "process_row rt a var_i p_i st ln = Inr st'"
  shows "out_rows st' = out_rows st
           @ map (\<lambda>(n, x). plot_row rt a n x) (List.map_filter (row_output rt a var_i p_i) [ln])"
    and "bad_bp st' = bad_bp st + length (filter (position_skipped rt a var_i p_i) [ln])"
    and "bad_p st' = bad_p st + length (filter (pvalue_skipped rt a var_i p_i) [ln])
           + length (filter (emitted_inf rt a var_i p_i) [ln])"
    and "length (List.map_filter (row_output rt a var_i p_i) [ln])
           + length (filter (short_row var_i p_i) [ln])
           + length (filter (position_skipped rt a var_i p_i) [ln])
           + length (filter (pvalue_skipped rt a var_i p_i) [ln]) = 1"
proof -
  from process_row_Inr_cases [OF assms]
  consider (short) "short_row var_i p_i ln"
    | (pos) "position_skipped rt a var_i p_i ln"
    | (pv) "pvalue_skipped rt a var_i p_i ln"
    | (emit) n x where "row_output rt a var_i p_i ln = Some (n, x)"
    by auto
  then have "out_rows st' = out_rows st
           @ map (\<lambda>(n, x). plot_row rt a n x) (List.map_filter (row_output rt a var_i p_i) [ln])
    \<and> bad_bp st' = bad_bp st + length (filter (position_skipped rt a var_i p_i) [ln])
    \<and> bad_p st' = bad_p st + length (filter (pvalue_skipped rt a var_i p_i) [ln])
           + length (filter (emitted_inf rt a var_i p_i) [ln])
    \<and> length (List.map_filter (row_output rt a var_i p_i) [ln])
           + length (filter (short_row var_i p_i) [ln])
           + length (filter (position_skipped rt a var_i p_i) [ln])
           + length (filter (pvalue_skipped rt a var_i p_i) [ln]) = 1"
  proof cases
    case short
    with assms have "st' = st" by (simp add: process_row_short)
    moreover from short have "\<not> position_skipped rt a var_i p_i ln"
      "\<not> pvalue_skipped rt a var_i p_i ln" "\<not> emitted_inf rt a var_i p_i ln"
      "row_output rt a var_i p_i ln = None"
      by (auto simp: row_defs)
    ultimately show ?thesis using short by (simp add: List.map_filter_simps)
  next
    case pos
    with assms have "st' = st\<lparr>bad_bp := bad_bp st + 1\<rparr>"
      by (simp add: process_row_position_skipped)
    moreover from pos have "\<not> short_row var_i p_i ln"
      "\<not> pvalue_skipped rt a var_i p_i ln" "\<not> emitted_inf rt a var_i p_i ln"
      "row_output rt a var_i p_i ln = None"
      by (auto simp: row_defs)
    ultimately show ?thesis using pos by (simp add: List.map_filter_simps)
  next
    case pv
    with assms have "st' = st\<lparr>bad_p := bad_p st + 1\<rparr>"
      by (simp add: process_row_pvalue_skipped)
    moreover from pv have "\<not> short_row var_i p_i ln"
      "\<not> position_skipped rt a var_i p_i ln" "\<not> emitted_inf rt a var_i p_i ln"
      "row_output rt a var_i p_i ln = None"
      by (auto simp: row_defs split: option.splits)
    ultimately show ?thesis using pv by (simp add: List.map_filter_simps)
  next
    case emit
    with assms have "st' = st\<lparr>out_rows := out_rows st @ [plot_row rt a n x],
             bad_p := bad_p st + (if x = PosInf then 1 else 0)\<rparr>"
      by (simp add: process_row_emit)
    moreover from emit have "\<not> short_row var_i p_i ln"
      "\<not> position_skipped rt a var_i p_i ln" "\<not> pvalue_skipped rt a var_i p_i ln"
      "emitted_inf rt a var_i p_i ln \<longleftrightarrow> x = PosInf"
      by (auto simp: row_defs safe_neglog10_def split: option.splits if_splits)
    ultimately show ?thesis using emit by (simp add: List.map_filter_simps)
  qed
  then show "out_rows st' = out_rows st
           @ map (\<lambda>(n, x). plot_row rt a n x) (List.map_filter (row_output rt a var_i p_i) [ln])"
    and "bad_bp st' = bad_bp st + length (filter (position_skipped rt a var_i p_i) [ln])"
    and "bad_p st' = bad_p st + length (filter (pvalue_skipped rt a var_i p_i) [ln])
           + length (filter (emitted_inf rt a var_i p_i) [ln])"
    and "length (List.map_filter (row_output rt a var_i p_i) [ln])
           + length (filter (short_row var_i p_i) [ln])
           + length (filter (position_skipped rt a var_i p_i) [ln])
           + length (filter (pvalue_skipped rt a var_i p_i) [ln]) = 1"
    by blast+
qed

lemma map_filter_Cons:
  "List.map_filter f (x # xs) = List.map_filter f [x] @ List.map_filter f xs"
  by (simp add: List.map_filter_simps split: option.splits)

lemma filter_Cons_app: "filter P (x # xs) = filter P [x] @ filter P xs"
  by simp

lemma process_rows_Inr:
  assumes "process_rows rt a var_i p_i st lns = Inr st'"
  shows "out_rows st' = out_rows st
           @ map (\<lambda>(n, x). plot_row rt a n x) (List.map_filter (row_output rt a var_i p_i) lns)"
    and "bad_bp st' = bad_bp st + length (filter (position_skipped rt a var_i p_i) lns)"
    and "bad_p st' = bad_p st + length (filter (pvalue_skipped rt a var_i p_i) lns)
           + length (filter (emitted_inf rt a var_i p_i) lns)"
    and "length (List.map_filter (row_output rt a var_i p_i) lns)
           + length (filter (short_row var_i p_i) lns)
           + length (filter (position_skipped rt a var_i p_i) lns)
           + length (filter (pvalue_skipped rt a var_i p_i) lns) = length lns"
  using assms
proof (induction lns arbitrary: st)
  case Nil
  {
    case 1 then show ?case by (simp add: List.map_filter_simps)
  next
    case 2 then show ?case by simp
  next
    case 3 then show ?case by simp
  next
    case 4 then show ?case by (simp add: List.map_filter_simps)
  }
next
  case (Cons ln lns)
  {
    case 1
    then obtain st1 where s1: "process_row rt a var_i p_i st ln = Inr st1"
      and s2: "process_rows rt a var_i p_i st1 lns = Inr st'"
      by (auto split: sum.splits)
    show ?case
      using process_row_step(1) [OF s1] Cons.IH(1) [OF s2]
      by (subst map_filter_Cons) simp
  next
    case 2
    then obtain st1 where s1: "process_row rt a var_i p_i st ln = Inr st1"
      and s2: "process_rows rt a var_i p_i st1 lns = Inr st'"
      by (auto split: sum.splits)
    show ?case
      using process_row_step(2) [OF s1] Cons.IH(2) [OF s2]
      by (subst filter_Cons_app) simp
  next
    case 3
    then obtain st1 where s1: "process_row rt a var_i p_i st ln = Inr st1"
      and s2: "process_rows rt a var_i p_i st1 lns = Inr st'"
      by (auto split: sum.splits)
    show ?case
      using process_row_step(3) [OF s1] Cons.IH(3) [OF s2]
      by (subst (1 2) filter_Cons_app) simp
  next
    case 4
    then obtain st1 where s1: "process_row rt a var_i p_i st ln = Inr st1"
      and s2: "process_rows rt a var_i p_i st1 lns = Inr st'"
      by (auto split: sum.splits)
    show ?case
      using process_row_step(4) [OF s1] Cons.IH(4) [OF s2]
      by (subst map_filter_Cons, subst (1 2 3) filter_Cons_app) simp
  }
qed


subsection \<open>Unfolding for the sample runs\<close>

lemmas text_defs = TAB_def NL_def is_space_def num_space_def strip_num_def lower_def lower_char_def
  char_of_def bit_Suc_0_iff py_split_def py_index_def digit_val_def is_digit_def nat_of_digits_def
  py_int_def digit_char_def str_nat.simps str_int_def digits_value_def parse_exponent_def parse_decimal_def
  py_float_def
lemmas prog_defs = read_lines_def col_index_def candidates_def lower_map_def heuristic_def
  detect_pcol_def resolve_def safe_neglog10_def plot_row_def str_float_def process_row_def
  init_acc_def DEFAULT_HEADER_def enumerate_eq_zip
lemmas sample_defs = rt0_def a_default_def a_lenient_def world_of_def

subsection \<open>The whole run\<close>

lemma main_success:
  assumes "main rt a w = (None, w')"
  shows "\<exists>txt var_i p_i pc st.
           files w (pyseer a) = Some txt
         \<and> resolve a (read_lines txt) = Inr (var_i, p_i, pc)
         \<and> process_rows rt a var_i p_i init_acc (tl (read_lines txt)) = Inr st
         \<and> w' = w\<lparr>files := (files w)(out a \<mapsto> plot_text st),
                   stderr := stderr w @ report a pc st\<rparr>"
  using assms
  by (auto simp: main_def Let_def split: option.splits sum.splits prod.splits)

lemma main_abort:
  assumes "fst (main rt a w) = Some e"
  shows "snd (main rt a w) = w"
  using assms
  by (auto simp: main_def Let_def split: option.splits sum.splits prod.splits)

subsection \<open>The lenient sample run\<close>


text \<open>Five data rows, one of them written.\<close>

lemma read_mixed: "read_lines txt_mixed = (''variant'' @ TAB @ ''pvalue'') # rows_mixed"
  by (simp add: txt_mixed_def rows_mixed_def text_defs prog_defs)

lemma resolve_mixed_lenient:
  "resolve a_lenient (read_lines txt_mixed) = Inr (0, Suc 0, ''pvalue'')"
  unfolding read_mixed by (simp add: sample_defs text_defs prog_defs)

lemma rows_mixed_lenient:
  "process_rows rt0 a_lenient 0 (Suc 0) init_acc rows_mixed
     = Inr \<lparr>out_rows = [DEFAULT_HEADER, row_5], bad_bp = 1, bad_p = 2\<rparr>"
  by (simp add: rows_mixed_def row_5_def sample_defs text_defs prog_defs)

lemma main_mixed_lenient:
  "main rt0 a_lenient (world_of txt_mixed) =
     (None, \<lparr>files = [''in.txt'' \<mapsto> txt_mixed, ''out.plot'' \<mapsto> DEFAULT_HEADER @ NL @ row_5 @ NL],
             stderr = report a_lenient ''pvalue''
                        \<lparr>out_rows = [DEFAULT_HEADER, row_5], bad_bp = 1, bad_p = 2\<rparr>\<rparr>)"
proof -
  have "files (world_of txt_mixed) (pyseer a_lenient) = Some txt_mixed"
    by (simp add: sample_defs)
  then show ?thesis
    by (simp only: main_def Let_def option.case resolve_mixed_lenient sum.case prod.case,
        simp only: read_mixed list.sel rows_mixed_lenient sum.case,
        simp add: sample_defs plot_text_def)
qed

lemma fates_mixed_lenient:
  "filter (short_row 0 (Suc 0)) rows_mixed = [''short'']"
  "filter (position_skipped rt0 a_lenient 0 (Suc 0)) rows_mixed = [''c_x_A_T'' @ TAB @ ''0.01'']"
  "filter (pvalue_skipped rt0 a_lenient 0 (Suc 0)) rows_mixed
     = [''c_7_A_T'' @ TAB @ ''abc'', ''c_8_A_T'' @ TAB @ ''0'']"
  by (simp_all add: rows_mixed_def row_defs sample_defs text_defs)


subsection \<open>Integers read and printed\<close>

lemma digit_val_digit_char: "d < 10 \<Longrightarrow> digit_val (digit_char d) = Some d"
  by (simp add: digit_val_def digit_char_def)

lemma is_digit_digit_char: "d < 10 \<Longrightarrow> is_digit (digit_char d)"
  by (simp add: is_digit_def digit_val_digit_char)

lemma digit_val_underscore: "digit_val CHR ''_'' = None"
  by (simp add: digit_val_def)

lemma not_space_digit: "is_digit c \<Longrightarrow> \<not> num_space c"
  by (auto simp: is_digit_def digit_val_def num_space_def Let_def split: if_splits)

lemma not_sign_digit: "is_digit c \<Longrightarrow> c \<noteq> CHR ''-'' \<and> c \<noteq> CHR ''+''"
  by (auto simp: is_digit_def digit_val_def)

lemma str_nat_digits: "list_all is_digit (str_nat m) \<and> str_nat m \<noteq> []"
proof (induction m rule: str_nat.induct)
  case (1 n)
  show ?case
  proof (cases "n < 10")
    case True
    then show ?thesis by (subst (1 2) str_nat.simps) (simp add: is_digit_digit_char)
  next
    case False
    with 1 show ?thesis
      by (subst (1 2) str_nat.simps) (simp add: is_digit_digit_char)
  qed
qed

lemma digits_us_all_digits:
  "s \<noteq> [] \<Longrightarrow> list_all is_digit s \<Longrightarrow> digits_us s = Some (map (\<lambda>c. the (digit_val c)) s)"
proof (induction s rule: digits_us.induct)
  case 1
  then show ?case by simp
next
  case (2 c)
  then show ?case by (auto simp: is_digit_def)
next
  case (3 c u cs)
  then show ?case
    by (auto simp: is_digit_def digit_val_underscore)
qed

lemma nat_of_digits_snoc: "nat_of_digits (ds @ [d]) = 10 * nat_of_digits ds + d"
  by (simp add: nat_of_digits_def)

lemma str_nat_value: "nat_of_digits (map (\<lambda>c. the (digit_val c)) (str_nat m)) = m"
proof (induction m rule: str_nat.induct)
  case (1 n)
  show ?case
  proof (cases "n < 10")
    case True
    then show ?thesis
      by (subst str_nat.simps) (simp add: digit_val_digit_char nat_of_digits_def)
  next
    case False
    with 1 have "nat_of_digits (map (\<lambda>c. the (digit_val c)) (str_nat (n div 10))) = n div 10"
      by simp
    with False show ?thesis
      by (subst str_nat.simps) (simp add: nat_of_digits_snoc digit_val_digit_char)
  qed
qed

lemma str_nat_length: "m < 10 ^ k \<Longrightarrow> 0 < k \<Longrightarrow> length (str_nat m) \<le> k"
proof (induction m arbitrary: k rule: str_nat.induct)
  case (1 n)
  show ?case
  proof (cases "n < 10")
    case True
    with 1 show ?thesis by (subst str_nat.simps) simp
  next
    case False
    with 1(2,3) obtain j where k: "k = Suc j" and j: "0 < j"
      by (cases k; cases "k - 1") auto
    from 1(2) k have "n div 10 < 10 ^ j"
      by (simp add: less_mult_imp_div_less mult.commute)
    from 1(1) [OF False this j] False k show ?thesis
      by (subst str_nat.simps) simp
  qed
qed

lemma digits_us_range:
  "digits_us s = Some ds \<Longrightarrow> ds \<noteq> [] \<and> (\<forall>d\<in>set ds. d < 10)"
proof (induction s arbitrary: ds rule: digits_us.induct)
  case 1
  then show ?case by simp
next
  case (2 c)
  then show ?case by (auto simp: digit_val_def Let_def split: if_splits)
next
  case (3 c u cs)
  then show ?case
    by (auto simp: digit_val_def Let_def split: if_splits option.splits)
qed

lemma nat_of_digits_bound: "\<forall>d\<in>set ds. d < 10 \<Longrightarrow> nat_of_digits ds < 10 ^ length ds"
proof (induction ds rule: rev_induct)
  case Nil
  then show ?case by (simp add: nat_of_digits_def)
next
  case (snoc d ds)
  then have "nat_of_digits ds < 10 ^ length ds" and "d < 10" by auto
  then have "10 * nat_of_digits ds + d < 10 * 10 ^ length ds" by linarith
  then show ?case by (simp add: nat_of_digits_snoc)
qed

lemma strip_num_id: "\<forall>c\<in>set s. \<not> num_space c \<Longrightarrow> strip_num s = s"
proof -
  assume a: "\<forall>c\<in>set s. \<not> num_space c"
  have "dropWhile num_space t = t" if "\<forall>c\<in>set t. \<not> num_space c" for t
    using that by (cases t) auto
  from this [of s] this [of "rev s"] a show ?thesis
    by (simp add: strip_num_def)
qed

lemma not_space_minus: "\<not> num_space CHR ''-''"
  by (simp add: num_space_def)

lemma py_int_str_int:
  assumes "lim = 0 \<or> length (str_nat (nat \<bar>n\<bar>)) \<le> lim"
  shows "py_int lim (str_int n) = Some n"
proof -
  let ?m = "nat \<bar>n\<bar>"
  have dig: "list_all is_digit (str_nat ?m)" "str_nat ?m \<noteq> []"
    using str_nat_digits by auto
  have nosp: "\<forall>c\<in>set (str_nat ?m). \<not> num_space c"
    using dig(1) by (auto simp: list_all_iff not_space_digit)
  have hd: "is_digit (hd (str_nat ?m))"
    using dig by (cases "str_nat ?m") auto
  have du: "digits_us (str_nat ?m) = Some (map (\<lambda>c. the (digit_val c)) (str_nat ?m))"
    using dig by (simp add: digits_us_all_digits)
  show ?thesis
  proof (cases "n < 0")
    case True
    then have s: "str_int n = CHR ''-'' # str_nat ?m"
      by (simp add: str_int_def abs_if)
    have "strip_num (str_int n) = str_int n"
      using nosp by (intro strip_num_id) (auto simp: s not_space_minus)
    then show ?thesis
      using True assms du by (auto simp: py_int_def Let_def s str_nat_value)
  next
    case False
    then have s: "str_int n = str_nat ?m"
      by (simp add: str_int_def abs_if)
    have "strip_num (str_int n) = str_int n"
      using nosp by (intro strip_num_id) (auto simp: s)
    then show ?thesis
      using False assms du dig(2) not_sign_digit [OF hd]
      by (auto simp: py_int_def Let_def s str_nat_value)
  qed
qed

lemma py_int_abs:
  assumes "py_int lim s = Some n"
  shows "\<exists>ds. ds \<noteq> [] \<and> (\<forall>d\<in>set ds. d < 10) \<and> (lim = 0 \<or> length ds \<le> lim)
            \<and> nat \<bar>n\<bar> = nat_of_digits ds"
  using assms
  by (auto simp: py_int_def Let_def split: option.splits if_splits dest!: digits_us_range)

lemma py_int_round_trip:
  assumes "py_int lim s = Some n"
  shows "py_int lim (str_int n) = Some n"
proof -
  from py_int_abs [OF assms] obtain ds where ds: "ds \<noteq> []" "\<forall>d\<in>set ds. d < 10"
    "lim = 0 \<or> length ds \<le> lim" "nat \<bar>n\<bar> = nat_of_digits ds"
    by blast
  have "length (str_nat (nat \<bar>n\<bar>)) \<le> length ds"
    using ds(1) nat_of_digits_bound [OF ds(2)] by (intro str_nat_length) (auto simp: ds(4))
  with ds(3) show ?thesis
    by (intro py_int_str_int) auto
qed



lemma join_lines:
  "join NL (h # map f rs) @ NL = h @ NL @ concat (map (\<lambda>r. f r @ NL) rs)"
  by (induction rs arbitrary: h) auto

subsection \<open>The written text\<close>


lemma outputs_mixed_lenient:
  "List.map_filter (row_output rt0 a_lenient 0 (Suc 0)) rows_mixed = [(5, NegLog10 (Dec False 1 (- 2)))]"
  by (simp add: List.map_filter_simps rows_mixed_def row_defs sample_defs text_defs safe_neglog10_def)


subsection \<open>The position of an emitted row\<close>

lemma row_output_position:
  assumes "row_output rt a var_i p_i ln = Some (n, x)"
  shows "\<exists>flds bp. py_split (split_go TAB 0 [] ln ! var_i) (variant_delim a) = Some flds
           \<and> py_index flds (bp_field_index a) = Some bp
           \<and> position_field a var_i ln = Some bp
           \<and> py_int (int_max_str_digits rt) bp = Some n"
  using assms
  by (auto simp: row_defs split: option.splits if_splits)


subsection \<open>C8: the sign of the position\<close>








subsection \<open>C7: the counters and the warnings\<close>

text \<open>The default run on a single row with the p-value 0.\<close>

lemma read_zero:
  "read_lines txt_zero = [''variant'' @ TAB @ ''pvalue'', ''c_8_A_T'' @ TAB @ ''0'']"
  by (simp add: txt_zero_def text_defs prog_defs)

lemma resolve_zero:
  "resolve a_default (read_lines txt_zero) = Inr (0, Suc 0, ''pvalue'')"
  unfolding read_zero by (simp add: sample_defs text_defs prog_defs)

lemma rows_zero:
  "process_rows rt0 a_default 0 (Suc 0) init_acc [''c_8_A_T'' @ TAB @ ''0'']
     = Inr \<lparr>out_rows = [DEFAULT_HEADER, row_inf_8], bad_bp = 0, bad_p = 1\<rparr>"
  by (simp add: row_inf_8_def sample_defs text_defs prog_defs)

lemma main_zero:
  "main rt0 a_default (world_of txt_zero) =
     (None, \<lparr>files = [''in.txt'' \<mapsto> txt_zero,
                      ''out.plot'' \<mapsto> DEFAULT_HEADER @ NL @ row_inf_8 @ NL],
             stderr = [info_line a_default ''pvalue''
                         \<lparr>out_rows = [DEFAULT_HEADER, row_inf_8], bad_bp = 0, bad_p = 1\<rparr>,
                       ''[WARN] Encountered non-positive/non-numeric p for 1 rows.'' @ NL]\<rparr>)"
proof -
  have "files (world_of txt_zero) (pyseer a_default) = Some txt_zero"
    by (simp add: sample_defs)
  then show ?thesis
    by (simp only: main_def Let_def option.case resolve_zero sum.case prod.case,
        simp only: read_zero list.sel rows_zero sum.case,
        simp add: sample_defs plot_text_def report_def warn_p_def text_defs)
qed

lemma fates_zero:
  "\<not> short_row 0 (Suc 0) (''c_8_A_T'' @ TAB @ ''0'')"
  "\<not> position_skipped rt0 a_default 0 (Suc 0) (''c_8_A_T'' @ TAB @ ''0'')"
  "\<not> pvalue_skipped rt0 a_default 0 (Suc 0) (''c_8_A_T'' @ TAB @ ''0'')"
  "emitted_inf rt0 a_default 0 (Suc 0) (''c_8_A_T'' @ TAB @ ''0'')"
  by (simp_all add: row_defs sample_defs text_defs)

text \<open>
  Without \<^verbatim>\<open>--skip-nonpositive-p\<close> a row with the p-value 0 is written (with
  \<^verbatim>\<open>inf\<close>) and counted all the same: the run succeeds, no row is skipped, the p-value
  counter is 1 and the p-value warning is printed.
\<close>

theorem warning_without_skip_counterexample:
  "fst (main rt0 a_default (world_of txt_zero)) = None
   \<and> tl (read_lines txt_zero) = [''c_8_A_T'' @ TAB @ ''0'']
   \<and> \<not> short_row 0 (Suc 0) (''c_8_A_T'' @ TAB @ ''0'')
   \<and> \<not> position_skipped rt0 a_default 0 (Suc 0) (''c_8_A_T'' @ TAB @ ''0'')
   \<and> \<not> pvalue_skipped rt0 a_default 0 (Suc 0) (''c_8_A_T'' @ TAB @ ''0'')
   \<and> process_rows rt0 a_default 0 (Suc 0) init_acc (tl (read_lines txt_zero))
       = Inr \<lparr>out_rows = [DEFAULT_HEADER, row_inf_8], bad_bp = 0, bad_p = 1\<rparr>
   \<and> ''[WARN] Encountered non-positive/non-numeric p for 1 rows.'' @ NL
       \<in> set (stderr (snd (main rt0 a_default (world_of txt_zero))))"
proof -
  have a: "fst (main rt0 a_default (world_of txt_zero)) = None"
    by (simp add: main_zero)
  have b: "tl (read_lines txt_zero) = [''c_8_A_T'' @ TAB @ ''0'']"
    by (simp only: read_zero list.sel)
  have c: "process_rows rt0 a_default 0 (Suc 0) init_acc (tl (read_lines txt_zero))
       = Inr \<lparr>out_rows = [DEFAULT_HEADER, row_inf_8], bad_bp = 0, bad_p = 1\<rparr>"
    by (simp only: b rows_zero)
  have d: "''[WARN] Encountered non-positive/non-numeric p for 1 rows.'' @ NL
       \<in> set (stderr (snd (main rt0 a_default (world_of txt_zero))))"
    by (simp add: main_zero)
  from a b c d fates_zero(1-3) show ?thesis by blast
qed

text \<open>
  Claim C7, as the code has it. On a successful run the position counter is the number of
  rows skipped for their position, and the position warning is printed exactly when it is
  positive. The p-value counter is the number of rows skipped for their p-value plus the
  number of rows written with positive infinity (a number \<open>\<le> 0\<close> met without
  \<^verbatim>\<open>--skip-nonpositive-p\<close>), and the p-value warning is printed exactly when that
  counter is positive. So with no row skipped and none written with infinity, both counters
  are zero and no warning is printed.
\<close>

theorem warning_counts:
  assumes "files w (pyseer a) = Some txt"
    and "resolve a (read_lines txt) = Inr (var_i, p_i, pc)"
    and "main rt a w = (None, w')"
  shows "\<exists>st. process_rows rt a var_i p_i init_acc (tl (read_lines txt)) = Inr st
           \<and> bad_bp st = length (filter (position_skipped rt a var_i p_i) (tl (read_lines txt)))
           \<and> bad_p st = length (filter (pvalue_skipped rt a var_i p_i) (tl (read_lines txt)))
                        + length (filter (emitted_inf rt a var_i p_i) (tl (read_lines txt)))
           \<and> stderr w' = stderr w @ [info_line a pc st]
                @ (if bad_bp st \<noteq> 0 then [warn_bp st] else [])
                @ (if bad_p st \<noteq> 0 then [warn_p st] else [])"
proof -
  from main_success [OF assms(3)] assms(1,2)
  obtain st where st: "process_rows rt a var_i p_i init_acc (tl (read_lines txt)) = Inr st"
    and w': "w' = w\<lparr>files := (files w)(out a \<mapsto> plot_text st),
                    stderr := stderr w @ report a pc st\<rparr>"
    by auto
  have "bad_bp st = length (filter (position_skipped rt a var_i p_i) (tl (read_lines txt)))"
    using process_rows_Inr(2) [OF st] by (simp add: init_acc_def)
  moreover have "bad_p st = length (filter (pvalue_skipped rt a var_i p_i) (tl (read_lines txt)))
                        + length (filter (emitted_inf rt a var_i p_i) (tl (read_lines txt)))"
    using process_rows_Inr(3) [OF st] by (simp add: init_acc_def)
  moreover have "stderr w' = stderr w @ [info_line a pc st]
                @ (if bad_bp st \<noteq> 0 then [warn_bp st] else [])
                @ (if bad_p st \<noteq> 0 then [warn_p st] else [])"
    by (simp add: w' report_def)
  ultimately show ?thesis using st by blast
qed

theorem warning_counts_witness:
  "files (world_of txt_mixed) (pyseer a_lenient) = Some txt_mixed
   \<and> resolve a_lenient (read_lines txt_mixed) = Inr (0, Suc 0, ''pvalue'')
   \<and> fst (main rt0 a_lenient (world_of txt_mixed)) = None
   \<and> (\<exists>st. process_rows rt0 a_lenient 0 (Suc 0) init_acc (tl (read_lines txt_mixed)) = Inr st
         \<and> bad_bp st = 1 \<and> bad_p st = 2 + 0
         \<and> stderr (snd (main rt0 a_lenient (world_of txt_mixed)))
             = [info_line a_lenient ''pvalue'' st, warn_bp st, warn_p st])"
proof -
  have h1: "files (world_of txt_mixed) (pyseer a_lenient) = Some txt_mixed"
    by (simp add: sample_defs)
  have h3: "main rt0 a_lenient (world_of txt_mixed)
      = (None, snd (main rt0 a_lenient (world_of txt_mixed)))"
    by (simp add: main_mixed_lenient)
  have inf: "filter (emitted_inf rt0 a_lenient 0 (Suc 0)) rows_mixed = []"
    by (simp add: rows_mixed_def row_defs sample_defs)
  have rows: "tl (read_lines txt_mixed) = rows_mixed"
    by (simp only: read_mixed list.sel)
  from warning_counts [OF h1 resolve_mixed_lenient h3]
  obtain st where st: "process_rows rt0 a_lenient 0 (Suc 0) init_acc (tl (read_lines txt_mixed)) = Inr st"
    and bp: "bad_bp st
      = length (filter (position_skipped rt0 a_lenient 0 (Suc 0)) (tl (read_lines txt_mixed)))"
    and p: "bad_p st
      = length (filter (pvalue_skipped rt0 a_lenient 0 (Suc 0)) (tl (read_lines txt_mixed)))
        + length (filter (emitted_inf rt0 a_lenient 0 (Suc 0)) (tl (read_lines txt_mixed)))"
    and err: "stderr (snd (main rt0 a_lenient (world_of txt_mixed)))
      = stderr (world_of txt_mixed) @ [info_line a_lenient ''pvalue'' st]
        @ (if bad_bp st \<noteq> 0 then [warn_bp st] else [])
        @ (if bad_p st \<noteq> 0 then [warn_p st] else [])"
    by blast
  have bp1: "bad_bp st = 1"
    using bp by (simp only: rows fates_mixed_lenient) simp
  have p2: "bad_p st = 2 + 0"
    using p by (simp only: rows fates_mixed_lenient inf) simp
  have "stderr (snd (main rt0 a_lenient (world_of txt_mixed)))
             = [info_line a_lenient ''pvalue'' st, warn_bp st, warn_p st]"
    using err bp1 p2 by (simp add: world_of_def)
  with st bp1 p2 have "\<exists>st. process_rows rt0 a_lenient 0 (Suc 0) init_acc (tl (read_lines txt_mixed)) = Inr st
         \<and> bad_bp st = 1 \<and> bad_p st = 2 + 0
         \<and> stderr (snd (main rt0 a_lenient (world_of txt_mixed)))
             = [info_line a_lenient ''pvalue'' st, warn_bp st, warn_p st]"
    by blast
  moreover have "fst (main rt0 a_lenient (world_of txt_mixed)) = None"
    by (simp add: main_mixed_lenient)
  ultimately show ?thesis
    using h1 resolve_mixed_lenient by blast
qed

subsection \<open>Rows that end the run\<close>

lemma process_row_position_failure:
  "position_failure rt a var_i p_i ln \<Longrightarrow> \<exists>e. process_row rt a var_i p_i st ln = Inl e"
  by (auto simp: process_row_def row_defs Let_def split: option.splits if_splits)

lemma process_row_pvalue_failure:
  "pvalue_failure rt a var_i p_i ln \<Longrightarrow>
   process_row rt a var_i p_i st ln
     = Inl (PNotNumeric (split_go TAB 0 [] ln ! p_i) (split_go TAB 0 [] ln ! var_i))"
  by (auto simp: process_row_def row_defs Let_def split: option.splits if_splits)

lemma process_rows_abort:
  assumes "ln \<in> set lns" and "\<And>st. \<exists>e. process_row rt a var_i p_i st ln = Inl e"
  shows "\<exists>e. process_rows rt a var_i p_i st lns = Inl e"
  using assms(1)
proof (induction lns arbitrary: st)
  case Nil
  then show ?case by simp
next
  case (Cons l lns)
  show ?case
  proof (cases "process_row rt a var_i p_i st l")
    case (Inl e)
    then show ?thesis by simp
  next
    case (Inr st1)
    with assms(2) [of st] have "l \<noteq> ln" by auto
    with Cons.prems have "ln \<in> set lns" by simp
    from Cons.IH [OF this] Inr show ?thesis by simp
  qed
qed

subsection \<open>C2: p-values that are not positive, p-values that are no numbers\<close>

text \<open>The default run on a single row with the p-value 0 whose variant \<^verbatim>\<open>abc\<close> has no
  second field.\<close>

lemma read_nofield:
  "read_lines txt_nofield = [''variant'' @ TAB @ ''pvalue'', ''abc'' @ TAB @ ''0'']"
  by (simp add: txt_nofield_def text_defs prog_defs)

lemma resolve_nofield:
  "resolve a_default (read_lines txt_nofield) = Inr (0, Suc 0, ''pvalue'')"
  unfolding read_nofield by (simp add: sample_defs text_defs prog_defs)

lemma rows_nofield:
  "process_rows rt0 a_default 0 (Suc 0) init_acc [''abc'' @ TAB @ ''0'']
     = Inl (BPFieldMissing ''abc'')"
  by (simp add: sample_defs text_defs prog_defs)

lemma main_nofield:
  "main rt0 a_default (world_of txt_nofield) = (Some (BPFieldMissing ''abc''), world_of txt_nofield)"
proof -
  have "files (world_of txt_nofield) (pyseer a_default) = Some txt_nofield"
    by (simp add: sample_defs)
  then show ?thesis
    by (simp only: main_def Let_def option.case resolve_nofield sum.case prod.case,
        simp only: read_nofield list.sel rows_nofield sum.case)
qed

text \<open>
  The p-value field of that row reads as the number 0, and the run aborts all the same: the
  position is looked at first, and \<^verbatim>\<open>--allow-missing-bp\<close> is one of the leniency
  switches. A row is handled by its p-value only once it has reached the p-value step.
\<close>

theorem nonpositive_p_abort_counterexample:
  "tl (read_lines txt_nofield) = [''abc'' @ TAB @ ''0'']
   \<and> row_pvalue (Suc 0) (''abc'' @ TAB @ ''0'') = Some (Dec False 0 0)
   \<and> le_zero (Dec False 0 0)
   \<and> main rt0 a_default (world_of txt_nofield)
       = (Some (BPFieldMissing ''abc''), world_of txt_nofield)
   \<and> exit_status (fst (main rt0 a_default (world_of txt_nofield))) = 1"
proof -
  have a: "tl (read_lines txt_nofield) = [''abc'' @ TAB @ ''0'']"
    by (simp only: read_nofield list.sel)
  have b: "row_pvalue (Suc 0) (''abc'' @ TAB @ ''0'') = Some (Dec False 0 0)"
    by (simp add: row_defs text_defs)
  have c: "exit_status (fst (main rt0 a_default (world_of txt_nofield))) = 1"
    by (simp add: main_nofield exit_status_def)
  from a b c main_nofield show ?thesis by simp
qed

text \<open>
  Claim C2, as the code has it. For every row that reaches the p-value step (it has enough
  fields and its position was read): if the p-value field reads as a number \<open>\<le> 0\<close>, the
  row never ends the run; with \<^verbatim>\<open>--skip-nonpositive-p\<close> it is skipped and counted,
  otherwise it is counted and written with the transformed value positive infinity, rendered
  \<^verbatim>\<open>inf\<close>. If the field is no number, the row ends the whole run unless
  \<^verbatim>\<open>--skip-nonpositive-p\<close> is set, in which case it is skipped and counted.
\<close>

theorem pvalue_policy:
  assumes "reaches_pvalue rt a var_i p_i ln"
  shows "(\<forall>p. row_pvalue p_i ln = Some p \<longrightarrow> le_zero p \<longrightarrow>
            (\<exists>n. row_position rt a var_i ln = Some n
              \<and> process_row rt a var_i p_i st ln =
                  (if skip_nonpositive_p a then Inr (st\<lparr>bad_p := bad_p st + 1\<rparr>)
                   else Inr (st\<lparr>out_rows := out_rows st
                                  @ [join TAB [chr_index a, snp_name a, str_int n,
                                               ''inf'', ''inf'', r2 a]],
                                bad_p := bad_p st + 1\<rparr>))))
       \<and> (row_pvalue p_i ln = None \<longrightarrow>
            process_row rt a var_i p_i st ln =
              (if skip_nonpositive_p a then Inr (st\<lparr>bad_p := bad_p st + 1\<rparr>)
               else Inl (PNotNumeric (split_go TAB 0 [] ln ! p_i) (split_go TAB 0 [] ln ! var_i))))
       \<and> (row_pvalue p_i ln = None \<longrightarrow> \<not> skip_nonpositive_p a \<longrightarrow>
            (\<forall>lns st0. ln \<in> set lns \<longrightarrow> (\<exists>e. process_rows rt a var_i p_i st0 lns = Inl e)))"
proof -
  have 1: "\<exists>n. row_position rt a var_i ln = Some n
              \<and> process_row rt a var_i p_i st ln =
                  (if skip_nonpositive_p a then Inr (st\<lparr>bad_p := bad_p st + 1\<rparr>)
                   else Inr (st\<lparr>out_rows := out_rows st
                                  @ [join TAB [chr_index a, snp_name a, str_int n,
                                               ''inf'', ''inf'', r2 a]],
                                bad_p := bad_p st + 1\<rparr>))"
    if "row_pvalue p_i ln = Some p" "le_zero p" for p
    using assms that
    by (auto simp: process_row_def row_defs Let_def plot_row_def str_float_def
        split: option.splits if_splits)
  have 2: "process_row rt a var_i p_i st ln =
              (if skip_nonpositive_p a then Inr (st\<lparr>bad_p := bad_p st + 1\<rparr>)
               else Inl (PNotNumeric (split_go TAB 0 [] ln ! p_i) (split_go TAB 0 [] ln ! var_i)))"
    if "row_pvalue p_i ln = None"
    using assms that
    by (auto simp: process_row_def row_defs Let_def split: option.splits if_splits)
  have 3: "\<exists>e. process_rows rt a var_i p_i st0 lns = Inl e"
    if "row_pvalue p_i ln = None" "\<not> skip_nonpositive_p a" "ln \<in> set lns" for lns st0
  proof (rule process_rows_abort [OF that(3)])
    fix st1
    from assms that(1,2) have "pvalue_failure rt a var_i p_i ln"
      by (simp add: pvalue_failure_def)
    from process_row_pvalue_failure [OF this]
    show "\<exists>e. process_row rt a var_i p_i st1 ln = Inl e" by blast
  qed
  from 1 2 3 show ?thesis by blast
qed


theorem pvalue_policy_witness:
  "reaches_pvalue rt0 a_default 0 (Suc 0) (''c_8_A_T'' @ TAB @ ''0'')
   \<and> row_pvalue (Suc 0) (''c_8_A_T'' @ TAB @ ''0'') = Some (Dec False 0 0)
   \<and> le_zero (Dec False 0 0)
   \<and> process_row rt0 a_default 0 (Suc 0) init_acc (''c_8_A_T'' @ TAB @ ''0'')
       = Inr (init_acc\<lparr>out_rows := out_rows init_acc
                @ [join TAB [chr_index a_default, snp_name a_default, str_int 8,
                             ''inf'', ''inf'', r2 a_default]],
              bad_p := bad_p init_acc + 1\<rparr>)
   \<and> process_row rt0 a_lenient 0 (Suc 0) init_acc (''c_8_A_T'' @ TAB @ ''0'')
       = Inr (init_acc\<lparr>bad_p := bad_p init_acc + 1\<rparr>)
   \<and> reaches_pvalue rt0 a_default 0 (Suc 0) (''c_7_A_T'' @ TAB @ ''abc'')
   \<and> row_pvalue (Suc 0) (''c_7_A_T'' @ TAB @ ''abc'') = None
   \<and> process_row rt0 a_default 0 (Suc 0) init_acc (''c_7_A_T'' @ TAB @ ''abc'')
       = Inl (PNotNumeric (split_go TAB 0 [] (''c_7_A_T'' @ TAB @ ''abc'') ! Suc 0)
                          (split_go TAB 0 [] (''c_7_A_T'' @ TAB @ ''abc'') ! 0))
   \<and> (\<exists>e. process_rows rt0 a_default 0 (Suc 0) init_acc rows_mixed = Inl e)
   \<and> process_row rt0 a_lenient 0 (Suc 0) init_acc (''c_7_A_T'' @ TAB @ ''abc'')
       = Inr (init_acc\<lparr>bad_p := bad_p init_acc + 1\<rparr>)"
proof -
  have r8: "reaches_pvalue rt0 a_default 0 (Suc 0) (''c_8_A_T'' @ TAB @ ''0'')"
    and r8l: "reaches_pvalue rt0 a_lenient 0 (Suc 0) (''c_8_A_T'' @ TAB @ ''0'')"
    and r7: "reaches_pvalue rt0 a_default 0 (Suc 0) (''c_7_A_T'' @ TAB @ ''abc'')"
    and r7l: "reaches_pvalue rt0 a_lenient 0 (Suc 0) (''c_7_A_T'' @ TAB @ ''abc'')"
    by (simp_all add: row_defs sample_defs text_defs)
  have p8: "row_pvalue (Suc 0) (''c_8_A_T'' @ TAB @ ''0'') = Some (Dec False 0 0)"
    and p7: "row_pvalue (Suc 0) (''c_7_A_T'' @ TAB @ ''abc'') = None"
    by (simp_all add: row_defs text_defs)
  have z: "le_zero (Dec False 0 0)" by simp
  have n8: "row_position rt0 a_default 0 (''c_8_A_T'' @ TAB @ ''0'') = Some 8"
    and n8l: "row_position rt0 a_lenient 0 (''c_8_A_T'' @ TAB @ ''0'') = Some 8"
    by (simp_all add: row_defs sample_defs text_defs)
  have sw: "\<not> skip_nonpositive_p a_default" "skip_nonpositive_p a_lenient"
    by (simp_all add: sample_defs)
  have mem: "''c_7_A_T'' @ TAB @ ''abc'' \<in> set rows_mixed"
    by (simp add: rows_mixed_def)
  note d8 = pvalue_policy [OF r8, of init_acc]
  note l8 = pvalue_policy [OF r8l, of init_acc]
  note d7 = pvalue_policy [OF r7, of init_acc]
  note l7 = pvalue_policy [OF r7l, of init_acc]
  have a: "process_row rt0 a_default 0 (Suc 0) init_acc (''c_8_A_T'' @ TAB @ ''0'')
       = Inr (init_acc\<lparr>out_rows := out_rows init_acc
                @ [join TAB [chr_index a_default, snp_name a_default, str_int 8,
                             ''inf'', ''inf'', r2 a_default]],
              bad_p := bad_p init_acc + 1\<rparr>)"
    using d8 p8 z n8 sw by auto
  have b: "process_row rt0 a_lenient 0 (Suc 0) init_acc (''c_8_A_T'' @ TAB @ ''0'')
       = Inr (init_acc\<lparr>bad_p := bad_p init_acc + 1\<rparr>)"
    using l8 p8 z n8l sw by auto
  have c: "process_row rt0 a_default 0 (Suc 0) init_acc (''c_7_A_T'' @ TAB @ ''abc'')
       = Inl (PNotNumeric (split_go TAB 0 [] (''c_7_A_T'' @ TAB @ ''abc'') ! Suc 0)
                          (split_go TAB 0 [] (''c_7_A_T'' @ TAB @ ''abc'') ! 0))"
    using d7 p7 sw by auto
  have d: "\<exists>e. process_rows rt0 a_default 0 (Suc 0) init_acc rows_mixed = Inl e"
    using d7 p7 sw mem by blast
  have e: "process_row rt0 a_lenient 0 (Suc 0) init_acc (''c_7_A_T'' @ TAB @ ''abc'')
       = Inr (init_acc\<lparr>bad_p := bad_p init_acc + 1\<rparr>)"
    using l7 p7 sw by auto
  from r8 p8 z a b r7 p7 c d e show ?thesis by blast
qed

subsection \<open>Looking up the columns\<close>

lemma col_index_fold:
  "foldl (\<lambda>m (i, name). m(name \<mapsto> i)) m (enumerate n header) name = None
     \<longleftrightarrow> m name = None \<and> name \<notin> set header"
  by (induction header arbitrary: m n) auto

lemma col_index_None: "col_index header name = None \<longleftrightarrow> name \<notin> set header"
  by (simp add: col_index_def col_index_fold)

lemma lower_map_snoc: "lower_map (hs @ [h]) = (lower_map hs)(lower h \<mapsto> h)"
  by (simp add: lower_map_def)

lemma lower_map_last:
  "lower_map header c =
     (if list_ex (\<lambda>h. lower h = c) header then Some (last (filter (\<lambda>h. lower h = c) header))
      else None)"
proof (induction header rule: rev_induct)
  case Nil
  then show ?case by (simp add: lower_map_def)
next
  case (snoc h hs)
  then show ?case by (auto simp: lower_map_snoc list_ex_iff)
qed

lemma detect_pcol_eq:
  "detect_pcol header =
     (case first_candidate header of
        Some c \<Rightarrow> Some (last (filter (\<lambda>h. lower h = c) header))
      | None \<Rightarrow> find heuristic header)"
proof -
  have eq: "(\<lambda>c. lower_map header c \<noteq> None) = (\<lambda>c. list_ex (\<lambda>h. lower h = c) header)"
    by (simp add: lower_map_last fun_eq_iff)
  have d: "detect_pcol header =
     (case first_candidate header of
        Some c \<Rightarrow> lower_map header c
      | None \<Rightarrow> find heuristic header)"
    unfolding detect_pcol_def first_candidate_def eq ..
  show ?thesis
  proof (cases "first_candidate header")
    case None
    then show ?thesis by (simp add: d)
  next
    case (Some c)
    then have "list_ex (\<lambda>h. lower h = c) header"
      by (auto simp: first_candidate_def find_Some_iff)
    with Some show ?thesis
      by (simp add: d lower_map_last)
  qed
qed

lemma detect_pcol_in_header: "detect_pcol header = Some h \<Longrightarrow> h \<in> set header"
proof -
  assume a: "detect_pcol header = Some h"
  show ?thesis
  proof (cases "first_candidate header")
    case None
    with a have "find heuristic header = Some h" by (simp add: detect_pcol_eq)
    then show ?thesis by (auto simp: find_Some_iff)
  next
    case (Some c)
    then have "list_ex (\<lambda>h. lower h = c) header"
      by (auto simp: first_candidate_def find_Some_iff)
    then have ne: "filter (\<lambda>h. lower h = c) header \<noteq> []"
      by (auto simp: list_ex_iff filter_empty_conv)
    from a Some have "h = last (filter (\<lambda>h. lower h = c) header)"
      by (simp add: detect_pcol_eq)
    with last_in_set [OF ne] show ?thesis by auto
  qed
qed

subsection \<open>C9: the variant column is matched exactly\<close>

lemma resolve_no_variant:
  assumes "lines \<noteq> []" and "variant_col a \<notin> set (split_go TAB 0 [] (hd lines))"
  shows "resolve a lines = Inl VariantColNotFound"
proof -
  from assms(2) have "col_index (split_go TAB 0 [] (hd lines)) (variant_col a) = None"
    by (simp add: col_index_None)
  with assms(1) show ?thesis by (simp add: resolve_def Let_def)
qed

lemma main_resolve_error:
  assumes "files w (pyseer a) = Some txt" and "resolve a (read_lines txt) = Inl e"
  shows "main rt a w = (Some e, w)"
  using assms by (simp add: main_def Let_def)

text \<open>Auto-detection of the p-value column looks at lower-cased names only.\<close>

lemma of_char_lower_char:
  "of_char (lower_char c) =
     (let n = (of_char c :: nat) in
      if (65 \<le> n \<and> n \<le> 90) \<or> (192 \<le> n \<and> n \<le> 222 \<and> n \<noteq> 215) then n + 32 else n)"
  by (auto simp: lower_char_def Let_def)

lemma lower_char_idem: "lower_char (lower_char c) = lower_char c"
proof -
  have "(of_char (lower_char (lower_char c)) :: nat) = of_char (lower_char c)"
    by (auto simp: of_char_lower_char [of "lower_char c"] of_char_lower_char [of c] Let_def)
  then show ?thesis by simp
qed

lemma lower_idem: "lower (lower s) = lower s"
  by (simp add: lower_def lower_char_idem)

lemma heuristic_lower: "heuristic (lower h) = heuristic h"
  by (simp add: heuristic_def lower_idem)

lemma find_map_lower:
  "find heuristic (map lower hs) = map_option lower (find heuristic hs)"
  by (induction hs) (auto simp: heuristic_lower)

lemma first_candidate_lower: "first_candidate (map lower hs) = first_candidate hs"
  by (simp add: first_candidate_def list_ex_iff lower_idem)

lemma filter_map_lower:
  "filter (\<lambda>h. lower h = c) (map lower hs) = map lower (filter (\<lambda>h. lower h = c) hs)"
  by (induction hs) (auto simp: lower_idem)

lemma detect_pcol_lower: "detect_pcol (map lower hs) = map_option lower (detect_pcol hs)"
proof (cases "first_candidate hs")
  case None
  then show ?thesis
    by (simp add: detect_pcol_eq first_candidate_lower find_map_lower)
next
  case (Some c)
  then have "list_ex (\<lambda>h. lower h = c) hs"
    by (auto simp: first_candidate_def find_Some_iff)
  then have "filter (\<lambda>h. lower h = c) hs \<noteq> []"
    by (auto simp: list_ex_iff filter_empty_conv)
  with Some show ?thesis
    by (simp add: detect_pcol_eq first_candidate_lower filter_map_lower last_map)
qed

text \<open>
  Claim C9. The variant column name is matched against the header exactly and with letter
  case: whenever the header holds a name that differs from the configured variant column
  name only in letter case, and not the configured name itself, the run aborts with the
  missing-variant-column error. The auto-detection of the p-value column, in contrast, does
  not see letter case: lower-casing the header lower-cases what it finds.
\<close>

theorem variant_column_case_sensitive:
  assumes "files w (pyseer a) = Some txt"
    and "read_lines txt \<noteq> []"
    and "h \<in> set (header_of txt)"
    and "lower h = lower (variant_col a)"
    and "variant_col a \<notin> set (header_of txt)"
  shows "main rt a w = (Some VariantColNotFound, w)
       \<and> exit_status (fst (main rt a w)) = 1
       \<and> detect_pcol (map lower (header_of txt)) = map_option lower (detect_pcol (header_of txt))"
proof -
  from assms(2,5) have "resolve a (read_lines txt) = Inl VariantColNotFound"
    by (intro resolve_no_variant) (simp_all add: header_of_def)
  from main_resolve_error [OF assms(1) this]
  show ?thesis
    by (simp add: exit_status_def detect_pcol_lower)
qed

text \<open>The default run on a header that spells the column \<^verbatim>\<open>Variant\<close>.\<close>

lemma read_capital:
  "read_lines txt_capital = [''Variant'' @ TAB @ ''pvalue'', ''c_5_A_T'' @ TAB @ ''0.01'']"
  by (simp add: txt_capital_def text_defs prog_defs)

lemma header_capital: "header_of txt_capital = [''Variant'', ''pvalue'']"
  unfolding header_of_def read_capital by (simp add: text_defs)

theorem variant_column_case_sensitive_witness:
  "files (world_of txt_capital) (pyseer a_default) = Some txt_capital
   \<and> read_lines txt_capital \<noteq> []
   \<and> ''Variant'' \<in> set (header_of txt_capital)
   \<and> lower ''Variant'' = lower (variant_col a_default)
   \<and> variant_col a_default \<notin> set (header_of txt_capital)
   \<and> main rt0 a_default (world_of txt_capital) = (Some VariantColNotFound, world_of txt_capital)
   \<and> detect_pcol (header_of txt_capital) = Some ''pvalue''"
proof -
  have h1: "files (world_of txt_capital) (pyseer a_default) = Some txt_capital"
    by (simp add: sample_defs)
  have h2: "read_lines txt_capital \<noteq> []"
    by (simp add: read_capital)
  have h3: "''Variant'' \<in> set (header_of txt_capital)"
    by (simp add: header_capital)
  have h4: "lower ''Variant'' = lower (variant_col a_default)"
    by (simp add: sample_defs text_defs)
  have h5: "variant_col a_default \<notin> set (header_of txt_capital)"
    by (simp add: header_capital sample_defs)
  have d: "detect_pcol (header_of txt_capital) = Some ''pvalue''"
    unfolding header_capital by (simp add: text_defs prog_defs)
  from variant_column_case_sensitive [OF h1 h2 h3 h4 h5, of rt0] h1 h2 h3 h4 h5 d
  show ?thesis by blast
qed

subsection \<open>C3: a failed run writes nothing\<close>

lemma resolve_empty: "resolve a [] = Inl EmptyInput"
  by (simp add: resolve_def)

lemma resolve_no_pcol:
  assumes "lines \<noteq> []" and "variant_col a \<in> set (split_go TAB 0 [] (hd lines))"
    and "case pcol a of Some p \<Rightarrow> p \<notin> set (split_go TAB 0 [] (hd lines))
         | None \<Rightarrow> detect_pcol (split_go TAB 0 [] (hd lines)) = None"
  shows "resolve a lines = Inl PColUndetermined"
proof -
  from assms(2) obtain var_i
    where v: "col_index (split_go TAB 0 [] (hd lines)) (variant_col a) = Some var_i"
    using col_index_None [of "split_go TAB 0 [] (hd lines)" "variant_col a"] by auto
  show ?thesis
  proof (cases "pcol a")
    case None
    with assms(1,3) v show ?thesis by (simp add: resolve_def Let_def)
  next
    case (Some p)
    with assms(3) have "col_index (split_go TAB 0 [] (hd lines)) p = None"
      by (simp add: col_index_None)
    with assms(1) v Some show ?thesis by (simp add: resolve_def Let_def)
  qed
qed

lemma main_rows_error:
  assumes "files w (pyseer a) = Some txt"
    and "resolve a (read_lines txt) = Inr (var_i, p_i, pc)"
    and "process_rows rt a var_i p_i init_acc (tl (read_lines txt)) = Inl e"
  shows "main rt a w = (Some e, w)"
  using assms by (simp add: main_def Let_def)

text \<open>
  Claim C3. On every failure condition the run aborts with a non-zero exit status and writes
  no output file: when the input is empty once blank lines are removed, when the configured
  variant column is not in the header, when no p-value column can be resolved, and when some
  row fails to give a position or a p-value in strict mode. Any run that ends with an error
  leaves the files as they were and exits with status 1. The output file is written only
  at a normal end, after the loop has gone through every row.
\<close>

theorem failure_writes_nothing:
  assumes "files w (pyseer a) = Some txt"
  shows "(read_lines txt = [] \<longrightarrow> main rt a w = (Some EmptyInput, w))
       \<and> (read_lines txt \<noteq> [] \<longrightarrow> variant_col a \<notin> set (header_of txt) \<longrightarrow>
            main rt a w = (Some VariantColNotFound, w))
       \<and> (read_lines txt \<noteq> [] \<longrightarrow> variant_col a \<in> set (header_of txt) \<longrightarrow>
            (case pcol a of Some p \<Rightarrow> p \<notin> set (header_of txt)
                          | None \<Rightarrow> detect_pcol (header_of txt) = None) \<longrightarrow>
            main rt a w = (Some PColUndetermined, w))
       \<and> (\<forall>var_i p_i pc ln. resolve a (read_lines txt) = Inr (var_i, p_i, pc) \<longrightarrow>
            ln \<in> set (tl (read_lines txt)) \<longrightarrow>
            position_failure rt a var_i p_i ln \<or> pvalue_failure rt a var_i p_i ln \<longrightarrow>
            (\<exists>e. main rt a w = (Some e, w)))
       \<and> (\<forall>e. fst (main rt a w) = Some e \<longrightarrow>
            exit_status (fst (main rt a w)) = 1 \<and> snd (main rt a w) = w)
       \<and> (fst (main rt a w) = None \<longrightarrow>
            exit_status (fst (main rt a w)) = 0
            \<and> (\<exists>var_i p_i pc st. resolve a (read_lines txt) = Inr (var_i, p_i, pc)
                  \<and> process_rows rt a var_i p_i init_acc (tl (read_lines txt)) = Inr st
                  \<and> files (snd (main rt a w)) = (files w)(out a \<mapsto> plot_text st)))"
proof -
  have 1: "main rt a w = (Some EmptyInput, w)" if "read_lines txt = []"
    using main_resolve_error [OF assms, of EmptyInput rt] that by (simp add: resolve_empty)
  have 2: "main rt a w = (Some VariantColNotFound, w)"
    if "read_lines txt \<noteq> []" "variant_col a \<notin> set (header_of txt)"
    using that by (intro main_resolve_error [OF assms] resolve_no_variant)
      (simp_all add: header_of_def)
  have 3: "main rt a w = (Some PColUndetermined, w)"
    if "read_lines txt \<noteq> []" "variant_col a \<in> set (header_of txt)"
      "case pcol a of Some p \<Rightarrow> p \<notin> set (header_of txt)
                    | None \<Rightarrow> detect_pcol (header_of txt) = None"
    using that [unfolded header_of_def]
    by (intro main_resolve_error [OF assms] resolve_no_pcol) simp_all
  have 4: "\<exists>e. main rt a w = (Some e, w)"
    if r: "resolve a (read_lines txt) = Inr (var_i, p_i, pc)"
      and m: "ln \<in> set (tl (read_lines txt))"
      and f: "position_failure rt a var_i p_i ln \<or> pvalue_failure rt a var_i p_i ln"
    for var_i p_i pc ln
  proof -
    have "\<exists>e. process_row rt a var_i p_i st ln = Inl e" for st
      using f process_row_position_failure process_row_pvalue_failure by blast
    from process_rows_abort [OF m this]
    obtain e where "process_rows rt a var_i p_i init_acc (tl (read_lines txt)) = Inl e"
      by blast
    from main_rows_error [OF assms r this] show ?thesis by blast
  qed
  have 5: "exit_status (fst (main rt a w)) = 1 \<and> snd (main rt a w) = w"
    if "fst (main rt a w) = Some e" for e
    using that main_abort [OF that] by (simp add: exit_status_def)
  have 6: "exit_status (fst (main rt a w)) = 0
            \<and> (\<exists>var_i p_i pc st. resolve a (read_lines txt) = Inr (var_i, p_i, pc)
                  \<and> process_rows rt a var_i p_i init_acc (tl (read_lines txt)) = Inr st
                  \<and> files (snd (main rt a w)) = (files w)(out a \<mapsto> plot_text st))"
    if n: "fst (main rt a w) = None"
  proof -
    from n have "main rt a w = (None, snd (main rt a w))"
      by (metis prod.collapse)
    from main_success [OF this] assms n show ?thesis
      by (auto simp: exit_status_def)
  qed
  from 1 2 3 4 5 6 show ?thesis by blast
qed


text \<open>One sample run for each way to fail, and one that succeeds.\<close>

lemma read_blank: "read_lines txt_blank = []"
  by (simp add: txt_blank_def text_defs prog_defs)

lemma read_nopcol:
  "read_lines txt_nopcol = [''variant'' @ TAB @ ''beta'', ''c_5_A_T'' @ TAB @ ''0.01'']"
  by (simp add: txt_nopcol_def text_defs prog_defs)

lemma header_nopcol: "header_of txt_nopcol = [''variant'', ''beta'']"
  unfolding header_of_def read_nopcol by (simp add: text_defs)

lemma resolve_mixed_default:
  "resolve a_default (read_lines txt_mixed) = Inr (0, Suc 0, ''pvalue'')"
  unfolding read_mixed by (simp add: sample_defs text_defs prog_defs)

theorem failure_writes_nothing_witness:
  "files (world_of txt_blank) (pyseer a_default) = Some txt_blank
   \<and> read_lines txt_blank = []
   \<and> main rt0 a_default (world_of txt_blank) = (Some EmptyInput, world_of txt_blank)
   \<and> read_lines txt_capital \<noteq> [] \<and> variant_col a_default \<notin> set (header_of txt_capital)
   \<and> main rt0 a_default (world_of txt_capital) = (Some VariantColNotFound, world_of txt_capital)
   \<and> read_lines txt_nopcol \<noteq> [] \<and> variant_col a_default \<in> set (header_of txt_nopcol)
   \<and> pcol a_default = None \<and> detect_pcol (header_of txt_nopcol) = None
   \<and> main rt0 a_default (world_of txt_nopcol) = (Some PColUndetermined, world_of txt_nopcol)
   \<and> resolve a_default (read_lines txt_nofield) = Inr (0, Suc 0, ''pvalue'')
   \<and> ''abc'' @ TAB @ ''0'' \<in> set (tl (read_lines txt_nofield))
   \<and> position_failure rt0 a_default 0 (Suc 0) (''abc'' @ TAB @ ''0'')
   \<and> (\<exists>e. main rt0 a_default (world_of txt_nofield) = (Some e, world_of txt_nofield))
   \<and> resolve a_default (read_lines txt_mixed) = Inr (0, Suc 0, ''pvalue'')
   \<and> ''c_7_A_T'' @ TAB @ ''abc'' \<in> set (tl (read_lines txt_mixed))
   \<and> pvalue_failure rt0 a_default 0 (Suc 0) (''c_7_A_T'' @ TAB @ ''abc'')
   \<and> (\<exists>e. main rt0 a_default (world_of txt_mixed) = (Some e, world_of txt_mixed))
   \<and> exit_status (fst (main rt0 a_default (world_of txt_mixed))) = 1
   \<and> fst (main rt0 a_default (world_of txt_zero)) = None
   \<and> exit_status (fst (main rt0 a_default (world_of txt_zero))) = 0
   \<and> (\<exists>st. process_rows rt0 a_default 0 (Suc 0) init_acc (tl (read_lines txt_zero)) = Inr st
         \<and> files (snd (main rt0 a_default (world_of txt_zero)))
             = (files (world_of txt_zero))(out a_default \<mapsto> plot_text st))"
proof -
  have f: "files (world_of t) (pyseer a_default) = Some t" for t
    by (simp add: sample_defs)
  note blank = failure_writes_nothing [OF f [of txt_blank], of rt0]
  note capital = failure_writes_nothing [OF f [of txt_capital], of rt0]
  note nopcol = failure_writes_nothing [OF f [of txt_nopcol], of rt0]
  note nofield = failure_writes_nothing [OF f [of txt_nofield], of rt0]
  note mixed = failure_writes_nothing [OF f [of txt_mixed], of rt0]
  note zero = failure_writes_nothing [OF f [of txt_zero], of rt0]
  have a: "main rt0 a_default (world_of txt_blank) = (Some EmptyInput, world_of txt_blank)"
    using blank read_blank by blast
  have b1: "read_lines txt_capital \<noteq> []" by (simp add: read_capital)
  have b2: "variant_col a_default \<notin> set (header_of txt_capital)"
    by (simp add: header_capital sample_defs)
  have b: "main rt0 a_default (world_of txt_capital)
      = (Some VariantColNotFound, world_of txt_capital)"
    using capital b1 b2 by blast
  have c1: "read_lines txt_nopcol \<noteq> []" by (simp add: read_nopcol)
  have c2: "variant_col a_default \<in> set (header_of txt_nopcol)"
    by (simp add: header_nopcol sample_defs)
  have c3: "pcol a_default = None" by (simp add: sample_defs)
  have c4: "detect_pcol (header_of txt_nopcol) = None"
    unfolding header_nopcol by (simp add: text_defs prog_defs)
  have c5: "case pcol a_default of Some p \<Rightarrow> p \<notin> set (header_of txt_nopcol)
            | None \<Rightarrow> detect_pcol (header_of txt_nopcol) = None"
    by (simp add: c3 c4)
  have c: "main rt0 a_default (world_of txt_nopcol) = (Some PColUndetermined, world_of txt_nopcol)"
    using nopcol c1 c2 c5 by blast
  have d1: "''abc'' @ TAB @ ''0'' \<in> set (tl (read_lines txt_nofield))"
    by (simp only: read_nofield list.sel) simp
  have d2: "position_failure rt0 a_default 0 (Suc 0) (''abc'' @ TAB @ ''0'')"
    by (simp add: row_defs sample_defs text_defs)
  have d: "\<exists>e. main rt0 a_default (world_of txt_nofield) = (Some e, world_of txt_nofield)"
    using nofield resolve_nofield d1 d2 by blast
  have e1: "''c_7_A_T'' @ TAB @ ''abc'' \<in> set (tl (read_lines txt_mixed))"
    by (simp only: read_mixed list.sel) (simp add: rows_mixed_def)
  have e2: "pvalue_failure rt0 a_default 0 (Suc 0) (''c_7_A_T'' @ TAB @ ''abc'')"
    by (simp add: row_defs sample_defs text_defs)
  have e: "\<exists>e. main rt0 a_default (world_of txt_mixed) = (Some e, world_of txt_mixed)"
    using mixed resolve_mixed_default e1 e2 by blast
  then have e3: "exit_status (fst (main rt0 a_default (world_of txt_mixed))) = 1"
    using mixed by auto
  have g1: "fst (main rt0 a_default (world_of txt_zero)) = None"
    by (simp add: main_zero)
  have g2: "exit_status (fst (main rt0 a_default (world_of txt_zero))) = 0"
    using zero g1 by blast
  from zero g1 obtain var_i p_i pc st
    where r: "resolve a_default (read_lines txt_zero) = Inr (var_i, p_i, pc)"
      and st: "process_rows rt0 a_default var_i p_i init_acc (tl (read_lines txt_zero)) = Inr st"
        "files (snd (main rt0 a_default (world_of txt_zero)))
             = (files (world_of txt_zero))(out a_default \<mapsto> plot_text st)"
    by blast
  from r have "var_i = 0" "p_i = Suc 0" by (simp_all add: resolve_zero)
  with st have g: "\<exists>st. process_rows rt0 a_default 0 (Suc 0) init_acc (tl (read_lines txt_zero)) = Inr st
         \<and> files (snd (main rt0 a_default (world_of txt_zero)))
             = (files (world_of txt_zero))(out a_default \<mapsto> plot_text st)"
    by blast
  from f [of txt_blank] read_blank a b1 b2 b c1 c2 c3 c4 c resolve_nofield d1 d2 d
    resolve_mixed_default e1 e2 e e3 g1 g2 g
  show ?thesis by blast
qed

subsection \<open>C4: auto-detection of the p-value column\<close>

lemma first_candidate_match:
  assumes "first_candidate header = Some c"
  shows "c \<in> set candidates" and "list_ex (\<lambda>h. lower h = c) header"
    and "filter (\<lambda>h. lower h = c) header \<noteq> []"
proof -
  from assms show "c \<in> set candidates"
    by (auto simp: first_candidate_def find_Some_iff)
  from assms show m: "list_ex (\<lambda>h. lower h = c) header"
    by (auto simp: first_candidate_def find_Some_iff)
  then show "filter (\<lambda>h. lower h = c) header \<noteq> []"
    by (auto simp: list_ex_iff filter_empty_conv)
qed

lemma resolve_detected:
  assumes "pcol a = None" and "lines \<noteq> []"
    and "col_index (split_go TAB 0 [] (hd lines)) (variant_col a) = Some var_i"
    and "detect_pcol (split_go TAB 0 [] (hd lines)) = Some h"
  shows "\<exists>p_i. resolve a lines = Inr (var_i, p_i, h)"
proof -
  from detect_pcol_in_header [OF assms(4)]
  obtain p_i where "col_index (split_go TAB 0 [] (hd lines)) h = Some p_i"
    using col_index_None [of "split_go TAB 0 [] (hd lines)" h] by auto
  with assms show ?thesis by (simp add: resolve_def Let_def)
qed

lemma resolve_undetected:
  assumes "pcol a = None" and "lines \<noteq> []"
    and "col_index (split_go TAB 0 [] (hd lines)) (variant_col a) = Some var_i"
    and "detect_pcol (split_go TAB 0 [] (hd lines)) = None"
  shows "resolve a lines = Inl PColUndetermined"
  using assms by (simp add: resolve_def Let_def)

text \<open>
  Claim C4. When no p-value column name is configured, the resolved p-value column is a
  header name that lower-cases to the first candidate of the ordered list
  \<^verbatim>\<open>lrt-pvalue, pvalue, p-value, pval, wald-pvalue, score-pvalue, filter-pvalue\<close> that
  some header name lower-cases to. If no candidate matches, it is the first header name, in
  header order, whose lower-cased form contains \<^verbatim>\<open>pvalue\<close> or equals \<^verbatim>\<open>p\<close> or
  \<^verbatim>\<open>pval\<close>, and the run fails when there is none. For the header
  \<^verbatim>\<open>variant, lrt-pvalue, other\<close> the resolved column is \<^verbatim>\<open>lrt-pvalue\<close>.
\<close>

theorem pcol_auto_detection:
  assumes "pcol a = None" and "lines \<noteq> []"
    and "header = split_go TAB 0 [] (hd lines)"
    and "col_index header (variant_col a) = Some var_i"
  shows "candidates = [''lrt-pvalue'', ''pvalue'', ''p-value'', ''pval'', ''wald-pvalue'',
                       ''score-pvalue'', ''filter-pvalue'']
       \<and> (\<forall>c. find (\<lambda>c. list_ex (\<lambda>h. lower h = c) header) candidates = Some c \<longrightarrow>
             (\<exists>h p_i. resolve a lines = Inr (var_i, p_i, h) \<and> h \<in> set header \<and> lower h = c))
       \<and> (find (\<lambda>c. list_ex (\<lambda>h. lower h = c) header) candidates = None \<longrightarrow>
             (case find (\<lambda>h. contains ''pvalue'' (lower h) \<or> lower h = ''p'' \<or> lower h = ''pval'')
                        header of
                Some h \<Rightarrow> \<exists>p_i. resolve a lines = Inr (var_i, p_i, h)
              | None \<Rightarrow> resolve a lines = Inl PColUndetermined))
       \<and> detect_pcol [''variant'', ''lrt-pvalue'', ''other''] = Some ''lrt-pvalue''"
proof -
  have heur: "(\<lambda>h. contains ''pvalue'' (lower h) \<or> lower h = ''p'' \<or> lower h = ''pval'')
      = heuristic"
    by (simp add: heuristic_def fun_eq_iff)
  have fc: "find (\<lambda>c. list_ex (\<lambda>h. lower h = c) header) candidates = first_candidate header"
    by (simp add: first_candidate_def)
  have 1: "\<exists>h p_i. resolve a lines = Inr (var_i, p_i, h) \<and> h \<in> set header \<and> lower h = c"
    if c: "first_candidate header = Some c" for c
  proof -
    let ?h = "last (filter (\<lambda>h. lower h = c) header)"
    from first_candidate_match(3) [OF c] have "?h \<in> set (filter (\<lambda>h. lower h = c) header)"
      by (rule last_in_set)
    then have h: "?h \<in> set header" "lower ?h = c" by auto
    from c have "detect_pcol header = Some ?h" by (simp add: detect_pcol_eq)
    from resolve_detected [OF assms(1,2) assms(4) [unfolded assms(3)] this [unfolded assms(3)]]
    obtain p_i where "resolve a lines = Inr (var_i, p_i, last (filter (\<lambda>h. lower h = c) header))"
      unfolding assms(3) by blast
    with h show ?thesis by blast
  qed
  have 2: "case find heuristic header of
                Some h \<Rightarrow> \<exists>p_i. resolve a lines = Inr (var_i, p_i, h)
              | None \<Rightarrow> resolve a lines = Inl PColUndetermined"
    if n: "first_candidate header = None"
  proof (cases "find heuristic header")
    case None
    with n have "detect_pcol header = None" by (simp add: detect_pcol_eq)
    from resolve_undetected [OF assms(1,2) assms(4) [unfolded assms(3)] this [unfolded assms(3)]]
    show ?thesis using None by simp
  next
    case (Some h)
    with n have "detect_pcol header = Some h" by (simp add: detect_pcol_eq)
    from resolve_detected [OF assms(1,2) assms(4) [unfolded assms(3)] this [unfolded assms(3)]]
    show ?thesis using Some by simp
  qed
  have 3: "detect_pcol [''variant'', ''lrt-pvalue'', ''other''] = Some ''lrt-pvalue''"
    by (simp add: text_defs prog_defs)
  from 1 2 3 show ?thesis
    unfolding heur fc by (simp add: candidates_def)
qed


lemma split_hdr_lrt: "split_go TAB 0 [] (join TAB hdr_lrt) = hdr_lrt"
  by (simp add: hdr_lrt_def text_defs)

lemma split_hdr_fallback: "split_go TAB 0 [] (join TAB hdr_fallback) = hdr_fallback"
  by (simp add: hdr_fallback_def text_defs)

theorem pcol_auto_detection_witness:
  "pcol a_default = None \<and> [join TAB hdr_lrt] \<noteq> []
   \<and> hdr_lrt = split_go TAB 0 [] (hd [join TAB hdr_lrt])
   \<and> col_index hdr_lrt (variant_col a_default) = Some 0
   \<and> find (\<lambda>c. list_ex (\<lambda>h. lower h = c) hdr_lrt) candidates = Some ''lrt-pvalue''
   \<and> (\<exists>h p_i. resolve a_default [join TAB hdr_lrt] = Inr (0, p_i, h) \<and> h \<in> set hdr_lrt
         \<and> lower h = ''lrt-pvalue'')
   \<and> hdr_fallback = split_go TAB 0 [] (hd [join TAB hdr_fallback])
   \<and> col_index hdr_fallback (variant_col a_default) = Some 0
   \<and> find (\<lambda>c. list_ex (\<lambda>h. lower h = c) hdr_fallback) candidates = None
   \<and> find (\<lambda>h. contains ''pvalue'' (lower h) \<or> lower h = ''p'' \<or> lower h = ''pval'') hdr_fallback
       = Some ''My-Pvalue''
   \<and> (\<exists>p_i. resolve a_default [join TAB hdr_fallback] = Inr (0, p_i, ''My-Pvalue''))"
proof -
  have p: "pcol a_default = None" by (simp add: sample_defs)
  have l1: "[join TAB hdr_lrt] \<noteq> []" and l2: "[join TAB hdr_fallback] \<noteq> []" by simp_all
  have h1: "hdr_lrt = split_go TAB 0 [] (hd [join TAB hdr_lrt])"
    by (simp add: split_hdr_lrt)
  have h2: "hdr_fallback = split_go TAB 0 [] (hd [join TAB hdr_fallback])"
    by (simp add: split_hdr_fallback)
  have v1: "col_index hdr_lrt (variant_col a_default) = Some 0"
    by (simp add: hdr_lrt_def sample_defs prog_defs)
  have v2: "col_index hdr_fallback (variant_col a_default) = Some 0"
    by (simp add: hdr_fallback_def sample_defs prog_defs)
  have f1: "find (\<lambda>c. list_ex (\<lambda>h. lower h = c) hdr_lrt) candidates = Some ''lrt-pvalue''"
    by (simp add: hdr_lrt_def candidates_def text_defs)
  have f2: "find (\<lambda>c. list_ex (\<lambda>h. lower h = c) hdr_fallback) candidates = None"
    by (simp add: hdr_fallback_def candidates_def text_defs)
  have f3: "find (\<lambda>h. contains ''pvalue'' (lower h) \<or> lower h = ''p'' \<or> lower h = ''pval'')
      hdr_fallback = Some ''My-Pvalue''"
    by (simp add: hdr_fallback_def text_defs)
  note lrt = pcol_auto_detection [OF p l1 h1 v1]
  note fb = pcol_auto_detection [OF p l2 h2 v2]
  have a: "\<exists>h p_i. resolve a_default [join TAB hdr_lrt] = Inr (0, p_i, h) \<and> h \<in> set hdr_lrt
         \<and> lower h = ''lrt-pvalue''"
    using lrt f1 by blast
  have b: "\<exists>p_i. resolve a_default [join TAB hdr_fallback] = Inr (0, p_i, ''My-Pvalue'')"
    using fb f2 f3 by simp
  from p l1 h1 v1 f1 a h2 v2 f2 f3 b show ?thesis by blast
qed

subsection \<open>C10: header names that differ only in letter case\<close>

lemma last_filter_index:
  assumes "filter P xs \<noteq> []"
  shows "\<exists>i<length xs. xs ! i = last (filter P xs) \<and> P (xs ! i)
            \<and> (\<forall>j. i < j \<and> j < length xs \<longrightarrow> \<not> P (xs ! j))"
  using assms
proof (induction xs rule: rev_induct)
  case Nil
  then show ?case by simp
next
  case (snoc x xs)
  show ?case
  proof (cases "P x")
    case True
    then have "(xs @ [x]) ! length xs = last (filter P (xs @ [x]))" "P ((xs @ [x]) ! length xs)"
      by simp_all
    then show ?thesis
      by (intro exI [of _ "length xs"]) auto
  next
    case False
    with snoc.prems have "filter P xs \<noteq> []" by simp
    from snoc.IH [OF this] obtain i where i: "i < length xs" "xs ! i = last (filter P xs)"
      "P (xs ! i)" "\<forall>j. i < j \<and> j < length xs \<longrightarrow> \<not> P (xs ! j)"
      by blast
    have "\<not> P ((xs @ [x]) ! j)" if "i < j" "j < length (xs @ [x])" for j
    proof (cases "j < length xs")
      case True
      with i(4) that(1) show ?thesis by (simp add: nth_append)
    next
      case False
      with that(2) have "j = length xs" by simp
      with \<open>\<not> P x\<close> show ?thesis by simp
    qed
    with i False show ?thesis
      by (intro exI [of _ i]) (auto simp: nth_append)
  qed
qed

text \<open>
  Claim C10. In the candidate stage of the auto-detection, when several header names
  lower-case to the matched candidate, the last of them in header order is the one resolved
  (a later entry overwrites an earlier one in the lower-cased lookup); the fallback stage
  resolves the first header name, in header order, that passes its test.
\<close>

theorem duplicate_case_resolution:
  "detect_pcol header =
     (case find (\<lambda>c. list_ex (\<lambda>h. lower h = c) header) candidates of
        Some c \<Rightarrow> Some (last (filter (\<lambda>h. lower h = c) header))
      | None \<Rightarrow> find (\<lambda>h. contains ''pvalue'' (lower h) \<or> lower h = ''p'' \<or> lower h = ''pval'')
                      header)
   \<and> (\<forall>c. find (\<lambda>c. list_ex (\<lambda>h. lower h = c) header) candidates = Some c \<longrightarrow>
         (\<exists>i<length header. detect_pcol header = Some (header ! i) \<and> lower (header ! i) = c
            \<and> (\<forall>j. i < j \<and> j < length header \<longrightarrow> lower (header ! j) \<noteq> c)))
   \<and> (find (\<lambda>c. list_ex (\<lambda>h. lower h = c) header) candidates = None \<longrightarrow>
         (\<forall>h. detect_pcol header = Some h \<longrightarrow>
            (\<exists>i<length header. header ! i = h
               \<and> (contains ''pvalue'' (lower h) \<or> lower h = ''p'' \<or> lower h = ''pval'')
               \<and> (\<forall>j<i. \<not> (contains ''pvalue'' (lower (header ! j)) \<or> lower (header ! j) = ''p''
                            \<or> lower (header ! j) = ''pval'')))))"
proof -
  have heur: "(\<lambda>h. contains ''pvalue'' (lower h) \<or> lower h = ''p'' \<or> lower h = ''pval'')
      = heuristic"
    by (simp add: heuristic_def fun_eq_iff)
  have fc: "find (\<lambda>c. list_ex (\<lambda>h. lower h = c) header) candidates = first_candidate header"
    by (simp add: first_candidate_def)
  have 1: "detect_pcol header =
     (case first_candidate header of
        Some c \<Rightarrow> Some (last (filter (\<lambda>h. lower h = c) header))
      | None \<Rightarrow> find heuristic header)"
    by (rule detect_pcol_eq)
  have 2: "\<exists>i<length header. detect_pcol header = Some (header ! i) \<and> lower (header ! i) = c
            \<and> (\<forall>j. i < j \<and> j < length header \<longrightarrow> lower (header ! j) \<noteq> c)"
    if c: "first_candidate header = Some c" for c
  proof -
    from c have "list_ex (\<lambda>h. lower h = c) header"
      by (auto simp: first_candidate_def find_Some_iff)
    then have "filter (\<lambda>h. lower h = c) header \<noteq> []"
      by (auto simp: list_ex_iff filter_empty_conv)
    from last_filter_index [OF this] c show ?thesis
      by (auto simp: detect_pcol_eq)
  qed
  have 3: "\<exists>i<length header. header ! i = h \<and> heuristic h
               \<and> (\<forall>j<i. \<not> heuristic (header ! j))"
    if "first_candidate header = None" "detect_pcol header = Some h" for h
  proof -
    from that have "find heuristic header = Some h" by (simp add: detect_pcol_eq)
    then show ?thesis by (auto simp: find_Some_iff)
  qed
  have 4: "\<exists>i<length header. header ! i = h
               \<and> (contains ''pvalue'' (lower h) \<or> lower h = ''p'' \<or> lower h = ''pval'')
               \<and> (\<forall>j<i. \<not> (contains ''pvalue'' (lower (header ! j)) \<or> lower (header ! j) = ''p''
                            \<or> lower (header ! j) = ''pval''))"
    if "first_candidate header = None" "detect_pcol header = Some h" for h
    using 3 [OF that] by (simp add: heuristic_def)
  from 1 2 4 show ?thesis
    unfolding heur fc by blast
qed

theorem duplicate_case_resolution_witness:
  "find (\<lambda>c. list_ex (\<lambda>h. lower h = c) hdr_cases) candidates = Some ''pvalue''
   \<and> filter (\<lambda>h. lower h = ''pvalue'') hdr_cases = [''PVALUE'', ''PValue'']
   \<and> detect_pcol hdr_cases = Some ''PValue''
   \<and> find (\<lambda>c. list_ex (\<lambda>h. lower h = c) hdr_fallback) candidates = None
   \<and> detect_pcol hdr_fallback = Some ''My-Pvalue''
   \<and> (\<exists>i<length hdr_fallback. hdr_fallback ! i = ''My-Pvalue''
         \<and> (\<forall>j<i. \<not> (contains ''pvalue'' (lower (hdr_fallback ! j)) \<or> lower (hdr_fallback ! j) = ''p''
                      \<or> lower (hdr_fallback ! j) = ''pval'')))"
proof -
  have f1: "find (\<lambda>c. list_ex (\<lambda>h. lower h = c) hdr_cases) candidates = Some ''pvalue''"
    by (simp add: hdr_cases_def candidates_def text_defs)
  have f2: "filter (\<lambda>h. lower h = ''pvalue'') hdr_cases = [''PVALUE'', ''PValue'']"
    by (simp add: hdr_cases_def text_defs)
  have f3: "find (\<lambda>c. list_ex (\<lambda>h. lower h = c) hdr_fallback) candidates = None"
    by (simp add: hdr_fallback_def candidates_def text_defs)
  have f4: "find (\<lambda>h. contains ''pvalue'' (lower h) \<or> lower h = ''p'' \<or> lower h = ''pval'')
      hdr_fallback = Some ''My-Pvalue''"
    by (simp add: hdr_fallback_def text_defs)
  note c = duplicate_case_resolution [of hdr_cases]
  note f = duplicate_case_resolution [of hdr_fallback]
  have a: "detect_pcol hdr_cases = Some ''PValue''"
    using c by (simp add: f1 f2)
  have b: "detect_pcol hdr_fallback = Some ''My-Pvalue''"
    using f by (simp add: f3 f4)
  have d: "\<exists>i<length hdr_fallback. hdr_fallback ! i = ''My-Pvalue''
         \<and> (\<forall>j<i. \<not> (contains ''pvalue'' (lower (hdr_fallback ! j)) \<or> lower (hdr_fallback ! j) = ''p''
                      \<or> lower (hdr_fallback ! j) = ''pval''))"
    using f f3 b by blast
  from f1 f2 a f3 b d show ?thesis by blast
qed

subsection \<open>An output line read back\<close>

text \<open>When neither the labels nor the rendered value hold a tab, splitting an output line
  at the tabs gives back its six fields.\<close>

lemma split_go_piece:
  "CHR 0x09 \<notin> set x \<Longrightarrow> split_go TAB 0 cur (x @ r) = split_go TAB 0 (rev x @ cur) r"
  by (induction x arbitrary: cur) (auto simp: TAB_def)

lemma split_go_tab: "split_go TAB 0 cur (TAB @ r) = rev cur # split_go TAB 0 [] r"
  by (simp add: TAB_def)

lemma split_join_tab:
  "xs \<noteq> [] \<Longrightarrow> \<forall>x\<in>set xs. CHR 0x09 \<notin> set x \<Longrightarrow> split_go TAB 0 [] (join TAB xs) = xs"
proof (induction TAB xs rule: join.induct)
  case 1
  then show ?case by simp
next
  case (2 x)
  then show ?case
    using split_go_piece [of x "[]" "[]"] by simp
next
  case (3 x y ys)
  then have "split_go TAB 0 [] (join TAB (y # ys)) = y # ys" by simp
  moreover from 3 have "CHR 0x09 \<notin> set x" by simp
  ultimately show ?case
    by (simp add: split_go_piece split_go_tab)
qed

lemma str_int_no_tab: "CHR 0x09 \<notin> set (str_int n)"
proof -
  have "\<forall>c\<in>set (str_nat m). c \<noteq> CHR 0x09" for m
  proof -
    have d: "list_all is_digit (str_nat m)" using str_nat_digits by simp
    show ?thesis
    proof
      fix c assume "c \<in> set (str_nat m)"
      with d have "is_digit c" by (simp add: list_all_iff)
      then show "c \<noteq> CHR 0x09" by (auto simp: is_digit_def digit_val_def)
    qed
  qed
  then show ?thesis by (auto simp: str_int_def)
qed

lemma plot_row_fields:
  assumes "CHR 0x09 \<notin> set (chr_index a)" and "CHR 0x09 \<notin> set (snp_name a)"
    and "CHR 0x09 \<notin> set (r2 a)" and "CHR 0x09 \<notin> set (str_float rt x)"
  shows "split_go TAB 0 [] (plot_row rt a n x)
           = [chr_index a, snp_name a, str_int n, str_float rt x, str_float rt x, r2 a]"
  unfolding plot_row_def
  using assms str_int_no_tab [of n] by (intro split_join_tab) auto

subsection \<open>The lines of the written file\<close>

lemma split_go_piece_char:
  "c \<notin> set x \<Longrightarrow> split_go [c] 0 cur (x @ r) = split_go [c] 0 (rev x @ cur) r"
  by (induction x arbitrary: cur) auto

lemma split_go_sep_char: "split_go [c] 0 cur (c # r) = rev cur # split_go [c] 0 [] r"
  by simp

lemma split_join_char:
  "xs \<noteq> [] \<Longrightarrow> \<forall>x\<in>set xs. c \<notin> set x \<Longrightarrow> split_go [c] 0 [] (join [c] xs) = xs"
proof (induction "[c]" xs rule: join.induct)
  case 1
  then show ?case by simp
next
  case (2 x)
  then show ?case
    using split_go_piece_char [of c x "[]" "[]"] by simp
next
  case (3 x y ys)
  then have "split_go [c] 0 [] (join [c] (y # ys)) = y # ys" by simp
  moreover from 3 have "c \<notin> set x" by simp
  ultimately show ?case
    by (simp add: split_go_piece_char)
qed

lemma join_snoc_empty: "xs \<noteq> [] \<Longrightarrow> join sep (xs @ [[]]) = join sep xs @ sep"
  by (induction sep xs rule: join.induct) auto

lemma file_lines_join:
  assumes "xs \<noteq> []" and "\<forall>x\<in>set xs. CHR 0x0A \<notin> set x"
  shows "file_lines (join NL xs @ NL) = xs"
proof -
  have "split_go NL 0 [] (join NL (xs @ [[]])) = xs @ [[]]"
    unfolding NL_def using assms(2) by (intro split_join_char) auto
  then have "split_go NL 0 [] (join NL xs @ NL) = xs @ [[]]"
    using assms(1) by (simp add: join_snoc_empty)
  then show ?thesis by (simp add: file_lines_def)
qed

lemma str_int_chars: "c \<in> set (str_int n) \<Longrightarrow> is_digit c \<or> c = CHR ''-''"
proof -
  have "list_all is_digit (str_nat m)" for m using str_nat_digits by simp
  then have "\<forall>c\<in>set (str_nat m). is_digit c" for m by (simp add: list_all_iff)
  then show "c \<in> set (str_int n) \<Longrightarrow> is_digit c \<or> c = CHR ''-''"
    by (auto simp: str_int_def split: if_splits)
qed

lemma plain_str_int: "plain (str_int n)"
proof -
  have "c \<noteq> CHR 0x09 \<and> c \<noteq> CHR 0x0A" if "c \<in> set (str_int n)" for c
    using str_int_chars [OF that] by (auto simp: is_digit_def digit_val_def)
  then show ?thesis by (auto simp: plain_def)
qed

lemma plain_str_float: "float_text_plain rt \<Longrightarrow> plain (str_float rt x)"
  by (cases x) (auto simp: str_float_def float_text_plain_def plain_def)

lemma header_no_newline: "CHR 0x0A \<notin> set DEFAULT_HEADER"
  by (simp add: DEFAULT_HEADER_def TAB_def)

lemma plot_row_no_newline:
  assumes "CHR 0x0A \<notin> set (chr_index a)" and "CHR 0x0A \<notin> set (snp_name a)"
    and "CHR 0x0A \<notin> set (r2 a)" and "float_text_plain rt"
  shows "CHR 0x0A \<notin> set (plot_row rt a n x)"
  using assms plain_str_int [of n] plain_str_float [of rt x]
  by (simp add: plot_row_def TAB_def plain_def)

lemma written_lines:
  assumes "files w (pyseer a) = Some txt"
    and "resolve a (read_lines txt) = Inr (var_i, p_i, pc)"
    and "main rt a w = (None, w')"
    and "CHR 0x0A \<notin> set (chr_index a)" and "CHR 0x0A \<notin> set (snp_name a)"
    and "CHR 0x0A \<notin> set (r2 a)" and "float_text_plain rt"
  shows "\<exists>content. files w' (out a) = Some content
           \<and> last content = CHR 0x0A
           \<and> file_lines content = DEFAULT_HEADER
               # map (\<lambda>(n, x). plot_row rt a n x)
                   (List.map_filter (row_output rt a var_i p_i) (tl (read_lines txt)))"
proof -
  from main_success [OF assms(3)] assms(1,2)
  obtain st where st: "process_rows rt a var_i p_i init_acc (tl (read_lines txt)) = Inr st"
    and w': "w' = w\<lparr>files := (files w)(out a \<mapsto> plot_text st),
                    stderr := stderr w @ report a pc st\<rparr>"
    by auto
  have rows: "out_rows st = DEFAULT_HEADER
      # map (\<lambda>(n, x). plot_row rt a n x)
          (List.map_filter (row_output rt a var_i p_i) (tl (read_lines txt)))"
    using process_rows_Inr(1) [OF st] by (simp add: init_acc_def)
  have "\<forall>x\<in>set (out_rows st). CHR 0x0A \<notin> set x"
    unfolding rows using header_no_newline plot_row_no_newline [OF assms(4-7)] by auto
  moreover have "out_rows st \<noteq> []" by (simp add: rows)
  ultimately have "file_lines (plot_text st) = out_rows st"
    unfolding plot_text_def by (intro file_lines_join) auto
  moreover have "last (plot_text st) = CHR 0x0A"
    by (simp add: plot_text_def NL_def)
  moreover have "files w' (out a) = Some (plot_text st)"
    by (simp add: w')
  ultimately show ?thesis by (simp add: rows)
qed

subsection \<open>C1: the number of output rows\<close>

text \<open>The default run on one good row, with a newline in the r2 placeholder.\<close>

lemma read_one:
  "read_lines txt_one = [''variant'' @ TAB @ ''pvalue'', ''c_5_A_T'' @ TAB @ ''0.01'']"
  by (simp add: txt_one_def text_defs prog_defs)

lemma fates_one:
  "\<not> short_row 0 (Suc 0) (''c_5_A_T'' @ TAB @ ''0.01'')"
  "\<not> position_skipped rt0 a 0 (Suc 0) (''c_5_A_T'' @ TAB @ ''0.01'')"
  "\<not> pvalue_skipped rt0 a 0 (Suc 0) (''c_5_A_T'' @ TAB @ ''0.01'')"
  if "variant_delim a = ''_''" "bp_field_index a = 1"
  using that by (simp_all add: row_defs sample_defs text_defs)

lemma resolve_one_r2:
  "resolve a_r2_newline (read_lines txt_one) = Inr (0, Suc 0, ''pvalue'')"
  unfolding read_one by (simp add: a_r2_newline_def sample_defs text_defs prog_defs)

lemma rows_one_r2:
  "process_rows rt0 a_r2_newline 0 (Suc 0) init_acc [''c_5_A_T'' @ TAB @ ''0.01'']
     = Inr \<lparr>out_rows = [DEFAULT_HEADER,
              ''26'' @ TAB @ ''.'' @ TAB @ ''5'' @ TAB @ ''2.0'' @ TAB @ ''2.0'' @ TAB @ ''0''
                @ NL @ ''x''],
            bad_bp = 0, bad_p = 0\<rparr>"
  by (simp add: a_r2_newline_def sample_defs text_defs prog_defs)

lemma main_one_r2:
  "fst (main rt0 a_r2_newline (world_of txt_one)) = None"
  "files (snd (main rt0 a_r2_newline (world_of txt_one))) ''out.plot''
     = Some (DEFAULT_HEADER @ NL
             @ ''26'' @ TAB @ ''.'' @ TAB @ ''5'' @ TAB @ ''2.0'' @ TAB @ ''2.0'' @ TAB @ ''0''
             @ NL @ ''x'' @ NL)"
proof -
  have f: "files (world_of txt_one) (pyseer a_r2_newline) = Some txt_one"
    by (simp add: a_r2_newline_def sample_defs)
  have m: "main rt0 a_r2_newline (world_of txt_one) =
     (None, (world_of txt_one)\<lparr>files := (files (world_of txt_one))
        (out a_r2_newline \<mapsto> plot_text \<lparr>out_rows = [DEFAULT_HEADER,
              ''26'' @ TAB @ ''.'' @ TAB @ ''5'' @ TAB @ ''2.0'' @ TAB @ ''2.0'' @ TAB @ ''0''
                @ NL @ ''x''], bad_bp = 0, bad_p = 0\<rparr>),
        stderr := stderr (world_of txt_one) @ report a_r2_newline ''pvalue''
          \<lparr>out_rows = [DEFAULT_HEADER,
              ''26'' @ TAB @ ''.'' @ TAB @ ''5'' @ TAB @ ''2.0'' @ TAB @ ''2.0'' @ TAB @ ''0''
                @ NL @ ''x''], bad_bp = 0, bad_p = 0\<rparr>\<rparr>)"
    using f
    by (simp only: main_def Let_def option.case resolve_one_r2 sum.case prod.case,
        simp only: read_one list.sel rows_one_r2 sum.case)
  show "fst (main rt0 a_r2_newline (world_of txt_one)) = None"
    by (simp add: m)
  show "files (snd (main rt0 a_r2_newline (world_of txt_one))) ''out.plot''
     = Some (DEFAULT_HEADER @ NL
             @ ''26'' @ TAB @ ''.'' @ TAB @ ''5'' @ TAB @ ''2.0'' @ TAB @ ''2.0'' @ TAB @ ''0''
             @ NL @ ''x'' @ NL)"
    by (simp only: m snd_conv) (simp add: a_r2_newline_def sample_defs plot_text_def)
qed

text \<open>
  The labels are written as they are given. With \<^verbatim>\<open>--r2\<close> holding a newline the run
  succeeds, no row is skipped, and the one input row becomes two data lines of the output
  file: the number of data rows of the file is not the number of input rows minus the
  skipped ones.
\<close>

theorem newline_label_row_count_counterexample:
  "fst (main rt0 a_r2_newline (world_of txt_one)) = None
   \<and> tl (read_lines txt_one) = [''c_5_A_T'' @ TAB @ ''0.01'']
   \<and> \<not> short_row 0 (Suc 0) (''c_5_A_T'' @ TAB @ ''0.01'')
   \<and> \<not> position_skipped rt0 a_r2_newline 0 (Suc 0) (''c_5_A_T'' @ TAB @ ''0.01'')
   \<and> \<not> pvalue_skipped rt0 a_r2_newline 0 (Suc 0) (''c_5_A_T'' @ TAB @ ''0.01'')
   \<and> files (snd (main rt0 a_r2_newline (world_of txt_one))) ''out.plot''
       = Some (DEFAULT_HEADER @ NL
             @ ''26'' @ TAB @ ''.'' @ TAB @ ''5'' @ TAB @ ''2.0'' @ TAB @ ''2.0'' @ TAB @ ''0''
             @ NL @ ''x'' @ NL)
   \<and> tl (file_lines (DEFAULT_HEADER @ NL
             @ ''26'' @ TAB @ ''.'' @ TAB @ ''5'' @ TAB @ ''2.0'' @ TAB @ ''2.0'' @ TAB @ ''0''
             @ NL @ ''x'' @ NL))
       = [''26'' @ TAB @ ''.'' @ TAB @ ''5'' @ TAB @ ''2.0'' @ TAB @ ''2.0'' @ TAB @ ''0'', ''x'']"
proof -
  have a: "tl (read_lines txt_one) = [''c_5_A_T'' @ TAB @ ''0.01'']"
    by (simp only: read_one list.sel)
  have cfg: "variant_delim a_r2_newline = ''_''" "bp_field_index a_r2_newline = 1"
    by (simp_all add: a_r2_newline_def sample_defs)
  have l: "tl (file_lines (DEFAULT_HEADER @ NL
             @ ''26'' @ TAB @ ''.'' @ TAB @ ''5'' @ TAB @ ''2.0'' @ TAB @ ''2.0'' @ TAB @ ''0''
             @ NL @ ''x'' @ NL))
       = [''26'' @ TAB @ ''.'' @ TAB @ ''5'' @ TAB @ ''2.0'' @ TAB @ ''2.0'' @ TAB @ ''0'', ''x'']"
    by (simp add: file_lines_def DEFAULT_HEADER_def TAB_def NL_def)
  from main_one_r2 a fates_one [OF cfg] l show ?thesis by blast
qed

text \<open>
  Claim C1, as the code has it. On every input on which the run succeeds, with a chromosome
  label, a site label and an r2 placeholder that hold no newline (and a runtime whose float
  text is plain), the number of data lines of the written output file, counted on the file,
  is the number of data rows of the input (the non-blank lines after the header) minus the
  rows skipped for being short, for an unreadable position, or for a bad p-value. The
  skipped rows never exceed the input rows, so the subtraction does not truncate.
\<close>

theorem output_row_count:
  assumes "files w (pyseer a) = Some txt"
    and "resolve a (read_lines txt) = Inr (var_i, p_i, pc)"
    and "main rt a w = (None, w')"
    and "CHR 0x0A \<notin> set (chr_index a)" and "CHR 0x0A \<notin> set (snp_name a)"
    and "CHR 0x0A \<notin> set (r2 a)" and "float_text_plain rt"
  shows "\<exists>content. files w' (out a) = Some content
           \<and> hd (file_lines content) = DEFAULT_HEADER
           \<and> length (filter (short_row var_i p_i) (tl (read_lines txt)))
               + length (filter (position_skipped rt a var_i p_i) (tl (read_lines txt)))
               + length (filter (pvalue_skipped rt a var_i p_i) (tl (read_lines txt)))
               \<le> length (tl (read_lines txt))
           \<and> length (tl (file_lines content)) =
               length (tl (read_lines txt))
               - (length (filter (short_row var_i p_i) (tl (read_lines txt)))
                  + length (filter (position_skipped rt a var_i p_i) (tl (read_lines txt)))
                  + length (filter (pvalue_skipped rt a var_i p_i) (tl (read_lines txt))))"
proof -
  from written_lines [OF assms] obtain content
    where c: "files w' (out a) = Some content"
      "file_lines content = DEFAULT_HEADER
               # map (\<lambda>(n, x). plot_row rt a n x)
                   (List.map_filter (row_output rt a var_i p_i) (tl (read_lines txt)))"
    by blast
  from main_success [OF assms(3)] assms(1,2)
  obtain st where st: "process_rows rt a var_i p_i init_acc (tl (read_lines txt)) = Inr st"
    by auto
  have "length (tl (file_lines content))
      = length (List.map_filter (row_output rt a var_i p_i) (tl (read_lines txt)))"
    by (simp add: c(2))
  moreover have "hd (file_lines content) = DEFAULT_HEADER"
    by (simp add: c(2))
  ultimately show ?thesis
    using c(1) process_rows_Inr(4) [OF st] by auto
qed

text \<open>The lenient sample run again, now read from the written file.\<close>

lemma plain_rt0: "float_text_plain rt0"
  by (simp add: float_text_plain_def plain_def rt0_def)

lemma labels_lenient:
  "CHR 0x0A \<notin> set (chr_index a_lenient)" "CHR 0x0A \<notin> set (snp_name a_lenient)"
  "CHR 0x0A \<notin> set (r2 a_lenient)"
  "CHR 0x09 \<notin> set (chr_index a_lenient)" "CHR 0x09 \<notin> set (snp_name a_lenient)"
  "CHR 0x09 \<notin> set (r2 a_lenient)"
  by (simp_all add: sample_defs)

lemma file_mixed_lenient:
  "files (snd (main rt0 a_lenient (world_of txt_mixed))) (out a_lenient)
     = Some (DEFAULT_HEADER @ NL @ row_5 @ NL)"
  by (simp only: main_mixed_lenient snd_conv) (simp add: sample_defs)

lemma lines_mixed_lenient:
  "file_lines (DEFAULT_HEADER @ NL @ row_5 @ NL) = [DEFAULT_HEADER, row_5]"
  by (simp add: file_lines_def DEFAULT_HEADER_def row_5_def TAB_def NL_def)

theorem output_row_count_witness:
  "files (world_of txt_mixed) (pyseer a_lenient) = Some txt_mixed
   \<and> resolve a_lenient (read_lines txt_mixed) = Inr (0, Suc 0, ''pvalue'')
   \<and> fst (main rt0 a_lenient (world_of txt_mixed)) = None
   \<and> CHR 0x0A \<notin> set (chr_index a_lenient) \<and> CHR 0x0A \<notin> set (snp_name a_lenient)
   \<and> CHR 0x0A \<notin> set (r2 a_lenient) \<and> float_text_plain rt0
   \<and> files (snd (main rt0 a_lenient (world_of txt_mixed))) (out a_lenient)
       = Some (DEFAULT_HEADER @ NL @ row_5 @ NL)
   \<and> length (tl (file_lines (DEFAULT_HEADER @ NL @ row_5 @ NL)))
       = length (tl (read_lines txt_mixed)) - (1 + 1 + 2)
   \<and> length (tl (file_lines (DEFAULT_HEADER @ NL @ row_5 @ NL))) = 1"
proof -
  have h1: "files (world_of txt_mixed) (pyseer a_lenient) = Some txt_mixed"
    by (simp add: sample_defs)
  have h3: "main rt0 a_lenient (world_of txt_mixed)
      = (None, snd (main rt0 a_lenient (world_of txt_mixed)))"
    by (simp add: main_mixed_lenient)
  have rows: "tl (read_lines txt_mixed) = rows_mixed"
    by (simp only: read_mixed list.sel)
  from output_row_count [OF h1 resolve_mixed_lenient h3 labels_lenient(1-3) plain_rt0]
  obtain content
    where c: "files (snd (main rt0 a_lenient (world_of txt_mixed))) (out a_lenient) = Some content"
      and n: "length (tl (file_lines content)) =
               length (tl (read_lines txt_mixed))
               - (length (filter (short_row 0 (Suc 0)) (tl (read_lines txt_mixed)))
                  + length (filter (position_skipped rt0 a_lenient 0 (Suc 0)) (tl (read_lines txt_mixed)))
                  + length (filter (pvalue_skipped rt0 a_lenient 0 (Suc 0)) (tl (read_lines txt_mixed))))"
    by blast
  from c have ceq: "content = DEFAULT_HEADER @ NL @ row_5 @ NL"
    by (simp add: file_mixed_lenient)
  have cnt: "length (tl (file_lines (DEFAULT_HEADER @ NL @ row_5 @ NL)))
       = length (tl (read_lines txt_mixed)) - (1 + 1 + 2)"
    using n unfolding ceq rows fates_mixed_lenient by simp
  have one: "length (tl (file_lines (DEFAULT_HEADER @ NL @ row_5 @ NL))) = 1"
    by (simp only: lines_mixed_lenient) simp
  have s: "fst (main rt0 a_lenient (world_of txt_mixed)) = None"
    by (simp add: main_mixed_lenient)
  from h1 resolve_mixed_lenient s labels_lenient(1-3) plain_rt0 file_mixed_lenient cnt one
  show ?thesis by blast
qed

subsection \<open>C5: the shape of the output file\<close>

text \<open>The default run on one good row, with a tab in the site label.\<close>

lemma resolve_one:
  assumes "variant_col a = ''variant''" and "pcol a = None"
  shows "resolve a (read_lines txt_one) = Inr (0, Suc 0, ''pvalue'')"
  unfolding read_one using assms by (simp add: text_defs prog_defs)

lemma rows_one_snp:
  "process_rows rt0 a_snp_tab 0 (Suc 0) init_acc [''c_5_A_T'' @ TAB @ ''0.01'']
     = Inr \<lparr>out_rows = [DEFAULT_HEADER,
              ''26'' @ TAB @ ''a'' @ TAB @ ''b'' @ TAB @ ''5'' @ TAB @ ''2.0'' @ TAB @ ''2.0''
                @ TAB @ ''0''],
            bad_bp = 0, bad_p = 0\<rparr>"
  by (simp add: a_snp_tab_def sample_defs text_defs prog_defs)

lemma main_one_snp:
  "fst (main rt0 a_snp_tab (world_of txt_one)) = None"
  "files (snd (main rt0 a_snp_tab (world_of txt_one))) ''out.plot''
     = Some (DEFAULT_HEADER @ NL
             @ ''26'' @ TAB @ ''a'' @ TAB @ ''b'' @ TAB @ ''5'' @ TAB @ ''2.0'' @ TAB @ ''2.0''
             @ TAB @ ''0'' @ NL)"
proof -
  have f: "files (world_of txt_one) (pyseer a_snp_tab) = Some txt_one"
    by (simp add: a_snp_tab_def sample_defs)
  have r: "resolve a_snp_tab (read_lines txt_one) = Inr (0, Suc 0, ''pvalue'')"
    by (rule resolve_one) (simp_all add: a_snp_tab_def sample_defs)
  have m: "main rt0 a_snp_tab (world_of txt_one) =
     (None, (world_of txt_one)\<lparr>files := (files (world_of txt_one))
        (out a_snp_tab \<mapsto> plot_text \<lparr>out_rows = [DEFAULT_HEADER,
              ''26'' @ TAB @ ''a'' @ TAB @ ''b'' @ TAB @ ''5'' @ TAB @ ''2.0'' @ TAB @ ''2.0''
                @ TAB @ ''0''], bad_bp = 0, bad_p = 0\<rparr>),
        stderr := stderr (world_of txt_one) @ report a_snp_tab ''pvalue''
          \<lparr>out_rows = [DEFAULT_HEADER,
              ''26'' @ TAB @ ''a'' @ TAB @ ''b'' @ TAB @ ''5'' @ TAB @ ''2.0'' @ TAB @ ''2.0''
                @ TAB @ ''0''], bad_bp = 0, bad_p = 0\<rparr>\<rparr>)"
    using f
    by (simp only: main_def Let_def option.case r sum.case prod.case,
        simp only: read_one list.sel rows_one_snp sum.case)
  show "fst (main rt0 a_snp_tab (world_of txt_one)) = None"
    by (simp add: m)
  show "files (snd (main rt0 a_snp_tab (world_of txt_one))) ''out.plot''
     = Some (DEFAULT_HEADER @ NL
             @ ''26'' @ TAB @ ''a'' @ TAB @ ''b'' @ TAB @ ''5'' @ TAB @ ''2.0'' @ TAB @ ''2.0''
             @ TAB @ ''0'' @ NL)"
    by (simp only: m snd_conv) (simp add: a_snp_tab_def sample_defs plot_text_def)
qed

text \<open>
  With \<^verbatim>\<open>--snp-name\<close> holding a tab the run succeeds and the written data line has
  seven tab-separated fields; its fourth and fifth fields differ and its second field is not
  the configured site label. So not every successful run writes six-field lines.
\<close>

theorem tab_label_fields_counterexample:
  "fst (main rt0 a_snp_tab (world_of txt_one)) = None
   \<and> files (snd (main rt0 a_snp_tab (world_of txt_one))) ''out.plot''
       = Some (DEFAULT_HEADER @ NL
             @ ''26'' @ TAB @ ''a'' @ TAB @ ''b'' @ TAB @ ''5'' @ TAB @ ''2.0'' @ TAB @ ''2.0''
             @ TAB @ ''0'' @ NL)
   \<and> tl (file_lines (DEFAULT_HEADER @ NL
             @ ''26'' @ TAB @ ''a'' @ TAB @ ''b'' @ TAB @ ''5'' @ TAB @ ''2.0'' @ TAB @ ''2.0''
             @ TAB @ ''0'' @ NL))
       = [''26'' @ TAB @ ''a'' @ TAB @ ''b'' @ TAB @ ''5'' @ TAB @ ''2.0'' @ TAB @ ''2.0''
             @ TAB @ ''0'']
   \<and> split_go TAB 0 [] (''26'' @ TAB @ ''a'' @ TAB @ ''b'' @ TAB @ ''5'' @ TAB @ ''2.0'' @ TAB
             @ ''2.0'' @ TAB @ ''0'')
       = [''26'', ''a'', ''b'', ''5'', ''2.0'', ''2.0'', ''0'']
   \<and> length [''26'', ''a'', ''b'', ''5'', ''2.0'', ''2.0'', ''0''] = 7
   \<and> [''26'', ''a'', ''b'', ''5'', ''2.0'', ''2.0'', ''0''] ! 3
       \<noteq> [''26'', ''a'', ''b'', ''5'', ''2.0'', ''2.0'', ''0''] ! 4
   \<and> [''26'', ''a'', ''b'', ''5'', ''2.0'', ''2.0'', ''0''] ! 1 \<noteq> snp_name a_snp_tab"
proof -
  have l: "tl (file_lines (DEFAULT_HEADER @ NL
             @ ''26'' @ TAB @ ''a'' @ TAB @ ''b'' @ TAB @ ''5'' @ TAB @ ''2.0'' @ TAB @ ''2.0''
             @ TAB @ ''0'' @ NL))
       = [''26'' @ TAB @ ''a'' @ TAB @ ''b'' @ TAB @ ''5'' @ TAB @ ''2.0'' @ TAB @ ''2.0''
             @ TAB @ ''0'']"
    by (simp add: file_lines_def DEFAULT_HEADER_def TAB_def NL_def)
  have s: "split_go TAB 0 [] (''26'' @ TAB @ ''a'' @ TAB @ ''b'' @ TAB @ ''5'' @ TAB @ ''2.0'' @ TAB
             @ ''2.0'' @ TAB @ ''0'')
       = [''26'', ''a'', ''b'', ''5'', ''2.0'', ''2.0'', ''0'']"
    by (simp add: TAB_def)
  have n: "length [''26'', ''a'', ''b'', ''5'', ''2.0'', ''2.0'', ''0''] = 7"
    "[''26'', ''a'', ''b'', ''5'', ''2.0'', ''2.0'', ''0''] ! 3
       \<noteq> [''26'', ''a'', ''b'', ''5'', ''2.0'', ''2.0'', ''0''] ! 4"
    "[''26'', ''a'', ''b'', ''5'', ''2.0'', ''2.0'', ''0''] ! 1 \<noteq> snp_name a_snp_tab"
    by (simp_all add: a_snp_tab_def sample_defs TAB_def)
  from main_one_snp l s n show ?thesis by blast
qed

text \<open>
  Claim C5, as the code has it. Every successful run whose chromosome label, site label and
  r2 placeholder are plain (no tab, no newline; and a runtime whose float text is plain)
  writes an output file that ends in a newline, whose first line is exactly the header
  \<^verbatim>\<open>#CHR SNP BP minLOG10(P) log10(p) r^2\<close> (tab-separated), followed by one line per
  emitted row. Split at the tabs, each of these lines has exactly six fields; the fourth and
  fifth are equal (the transformed value twice), and the first, second and sixth are the
  configured chromosome label, site label and r2 placeholder.
\<close>

theorem output_format:
  assumes "files w (pyseer a) = Some txt"
    and "resolve a (read_lines txt) = Inr (var_i, p_i, pc)"
    and "main rt a w = (None, w')"
    and "plain (chr_index a)" and "plain (snp_name a)" and "plain (r2 a)"
    and "float_text_plain rt"
  shows "\<exists>content. files w' (out a) = Some content
           \<and> last content = CHR 0x0A
           \<and> hd (file_lines content) =
               ''#CHR'' @ TAB @ ''SNP'' @ TAB @ ''BP'' @ TAB @ ''minLOG10(P)'' @ TAB
               @ ''log10(p)'' @ TAB @ ''r^2''
           \<and> map (split_go TAB 0 []) (tl (file_lines content)) =
               map (\<lambda>(n, x). [chr_index a, snp_name a, str_int n,
                              str_float rt x, str_float rt x, r2 a])
                   (List.map_filter (row_output rt a var_i p_i) (tl (read_lines txt)))
           \<and> (\<forall>line\<in>set (tl (file_lines content)).
                 length (split_go TAB 0 [] line) = 6
               \<and> split_go TAB 0 [] line ! 3 = split_go TAB 0 [] line ! 4
               \<and> split_go TAB 0 [] line ! 0 = chr_index a
               \<and> split_go TAB 0 [] line ! 1 = snp_name a
               \<and> split_go TAB 0 [] line ! 5 = r2 a)"
proof -
  from assms(4-6) have nl: "CHR 0x0A \<notin> set (chr_index a)" "CHR 0x0A \<notin> set (snp_name a)"
    "CHR 0x0A \<notin> set (r2 a)"
    and tab: "CHR 0x09 \<notin> set (chr_index a)" "CHR 0x09 \<notin> set (snp_name a)"
    "CHR 0x09 \<notin> set (r2 a)"
    by (simp_all add: plain_def)
  let ?outs = "List.map_filter (row_output rt a var_i p_i) (tl (read_lines txt))"
  from written_lines [OF assms(1-3) nl assms(7)] obtain content
    where c: "files w' (out a) = Some content" "last content = CHR 0x0A"
      "file_lines content = DEFAULT_HEADER # map (\<lambda>(n, x). plot_row rt a n x) ?outs"
    by blast
  have f: "split_go TAB 0 [] (plot_row rt a n x)
      = [chr_index a, snp_name a, str_int n, str_float rt x, str_float rt x, r2 a]" for n x
    using plain_str_float [OF assms(7), of x] by (intro plot_row_fields tab) (simp add: plain_def)
  have fields: "map (split_go TAB 0 []) (tl (file_lines content)) =
               map (\<lambda>(n, x). [chr_index a, snp_name a, str_int n,
                              str_float rt x, str_float rt x, r2 a]) ?outs"
    by (simp add: c(3) f split_def)
  have each: "length (split_go TAB 0 [] line) = 6
               \<and> split_go TAB 0 [] line ! 3 = split_go TAB 0 [] line ! 4
               \<and> split_go TAB 0 [] line ! 0 = chr_index a
               \<and> split_go TAB 0 [] line ! 1 = snp_name a
               \<and> split_go TAB 0 [] line ! 5 = r2 a"
    if "line \<in> set (tl (file_lines content))" for line
  proof -
    from that obtain n x where "line = plot_row rt a n x"
      by (auto simp: c(3))
    then show ?thesis by (simp add: f)
  qed
  have "hd (file_lines content) =
               ''#CHR'' @ TAB @ ''SNP'' @ TAB @ ''BP'' @ TAB @ ''minLOG10(P)'' @ TAB
               @ ''log10(p)'' @ TAB @ ''r^2''"
    by (simp add: c(3) DEFAULT_HEADER_def)
  with c(1,2) fields each show ?thesis by blast
qed

lemma plain_lenient:
  "plain (chr_index a_lenient)" "plain (snp_name a_lenient)" "plain (r2 a_lenient)"
  by (simp_all add: plain_def labels_lenient)

theorem output_format_witness:
  "files (world_of txt_mixed) (pyseer a_lenient) = Some txt_mixed
   \<and> resolve a_lenient (read_lines txt_mixed) = Inr (0, Suc 0, ''pvalue'')
   \<and> fst (main rt0 a_lenient (world_of txt_mixed)) = None
   \<and> plain (chr_index a_lenient) \<and> plain (snp_name a_lenient) \<and> plain (r2 a_lenient)
   \<and> float_text_plain rt0
   \<and> files (snd (main rt0 a_lenient (world_of txt_mixed))) (out a_lenient)
       = Some (DEFAULT_HEADER @ NL @ row_5 @ NL)
   \<and> tl (file_lines (DEFAULT_HEADER @ NL @ row_5 @ NL)) = [row_5]
   \<and> length (split_go TAB 0 [] row_5) = 6
   \<and> split_go TAB 0 [] row_5 ! 3 = split_go TAB 0 [] row_5 ! 4
   \<and> split_go TAB 0 [] row_5 ! 0 = chr_index a_lenient
   \<and> split_go TAB 0 [] row_5 ! 1 = snp_name a_lenient
   \<and> split_go TAB 0 [] row_5 ! 5 = r2 a_lenient"
proof -
  have h1: "files (world_of txt_mixed) (pyseer a_lenient) = Some txt_mixed"
    by (simp add: sample_defs)
  have h3: "main rt0 a_lenient (world_of txt_mixed)
      = (None, snd (main rt0 a_lenient (world_of txt_mixed)))"
    by (simp add: main_mixed_lenient)
  have s: "fst (main rt0 a_lenient (world_of txt_mixed)) = None"
    by (simp add: main_mixed_lenient)
  have l: "tl (file_lines (DEFAULT_HEADER @ NL @ row_5 @ NL)) = [row_5]"
    by (simp only: lines_mixed_lenient list.sel)
  from output_format [OF h1 resolve_mixed_lenient h3 plain_lenient plain_rt0]
  obtain content
    where c: "files (snd (main rt0 a_lenient (world_of txt_mixed))) (out a_lenient) = Some content"
      and e: "\<forall>line\<in>set (tl (file_lines content)).
                 length (split_go TAB 0 [] line) = 6
               \<and> split_go TAB 0 [] line ! 3 = split_go TAB 0 [] line ! 4
               \<and> split_go TAB 0 [] line ! 0 = chr_index a_lenient
               \<and> split_go TAB 0 [] line ! 1 = snp_name a_lenient
               \<and> split_go TAB 0 [] line ! 5 = r2 a_lenient"
    by blast
  from c have ceq: "content = DEFAULT_HEADER @ NL @ row_5 @ NL"
    by (simp add: file_mixed_lenient)
  from e have "length (split_go TAB 0 [] row_5) = 6
               \<and> split_go TAB 0 [] row_5 ! 3 = split_go TAB 0 [] row_5 ! 4
               \<and> split_go TAB 0 [] row_5 ! 0 = chr_index a_lenient
               \<and> split_go TAB 0 [] row_5 ! 1 = snp_name a_lenient
               \<and> split_go TAB 0 [] row_5 ! 5 = r2 a_lenient"
    unfolding ceq l by simp
  with h1 resolve_mixed_lenient s plain_lenient plain_rt0 file_mixed_lenient l
  show ?thesis by blast
qed

subsection \<open>C6: the position is carried over exactly\<close>

text \<open>The default run on one good row, with a tab in the chromosome label.\<close>

lemma rows_one_chr:
  "process_rows rt0 a_chr_tab 0 (Suc 0) init_acc [''c_5_A_T'' @ TAB @ ''0.01'']
     = Inr \<lparr>out_rows = [DEFAULT_HEADER,
              ''chr'' @ TAB @ ''1'' @ TAB @ ''.'' @ TAB @ ''5'' @ TAB @ ''2.0'' @ TAB @ ''2.0''
                @ TAB @ ''0''],
            bad_bp = 0, bad_p = 0\<rparr>"
  by (simp add: a_chr_tab_def sample_defs text_defs prog_defs)

lemma main_one_chr:
  "fst (main rt0 a_chr_tab (world_of txt_one)) = None"
  "files (snd (main rt0 a_chr_tab (world_of txt_one))) ''out.plot''
     = Some (DEFAULT_HEADER @ NL
             @ ''chr'' @ TAB @ ''1'' @ TAB @ ''.'' @ TAB @ ''5'' @ TAB @ ''2.0'' @ TAB @ ''2.0''
             @ TAB @ ''0'' @ NL)"
proof -
  have f: "files (world_of txt_one) (pyseer a_chr_tab) = Some txt_one"
    by (simp add: a_chr_tab_def sample_defs)
  have r: "resolve a_chr_tab (read_lines txt_one) = Inr (0, Suc 0, ''pvalue'')"
    by (rule resolve_one) (simp_all add: a_chr_tab_def sample_defs)
  have m: "main rt0 a_chr_tab (world_of txt_one) =
     (None, (world_of txt_one)\<lparr>files := (files (world_of txt_one))
        (out a_chr_tab \<mapsto> plot_text \<lparr>out_rows = [DEFAULT_HEADER,
              ''chr'' @ TAB @ ''1'' @ TAB @ ''.'' @ TAB @ ''5'' @ TAB @ ''2.0'' @ TAB @ ''2.0''
                @ TAB @ ''0''], bad_bp = 0, bad_p = 0\<rparr>),
        stderr := stderr (world_of txt_one) @ report a_chr_tab ''pvalue''
          \<lparr>out_rows = [DEFAULT_HEADER,
              ''chr'' @ TAB @ ''1'' @ TAB @ ''.'' @ TAB @ ''5'' @ TAB @ ''2.0'' @ TAB @ ''2.0''
                @ TAB @ ''0''], bad_bp = 0, bad_p = 0\<rparr>\<rparr>)"
    using f
    by (simp only: main_def Let_def option.case r sum.case prod.case,
        simp only: read_one list.sel rows_one_chr sum.case)
  show "fst (main rt0 a_chr_tab (world_of txt_one)) = None"
    by (simp add: m)
  show "files (snd (main rt0 a_chr_tab (world_of txt_one))) ''out.plot''
     = Some (DEFAULT_HEADER @ NL
             @ ''chr'' @ TAB @ ''1'' @ TAB @ ''.'' @ TAB @ ''5'' @ TAB @ ''2.0'' @ TAB @ ''2.0''
             @ TAB @ ''0'' @ NL)"
    by (simp only: m snd_conv) (simp add: a_chr_tab_def sample_defs plot_text_def)
qed

text \<open>
  With \<^verbatim>\<open>--chr-index\<close> holding a tab the run succeeds and emits the row with position
  5, but the BP field of the written line, its third tab-separated field, is the site label
  \<^verbatim>\<open>.\<close>, which is no integer: the position is not found in the BP field.
\<close>

theorem tab_label_position_counterexample:
  "fst (main rt0 a_chr_tab (world_of txt_one)) = None
   \<and> tl (read_lines txt_one) = [''c_5_A_T'' @ TAB @ ''0.01'']
   \<and> row_output rt0 a_chr_tab 0 (Suc 0) (''c_5_A_T'' @ TAB @ ''0.01'')
       = Some (5, NegLog10 (Dec False 1 (- 2)))
   \<and> files (snd (main rt0 a_chr_tab (world_of txt_one))) ''out.plot''
       = Some (DEFAULT_HEADER @ NL
             @ ''chr'' @ TAB @ ''1'' @ TAB @ ''.'' @ TAB @ ''5'' @ TAB @ ''2.0'' @ TAB @ ''2.0''
             @ TAB @ ''0'' @ NL)
   \<and> tl (file_lines (DEFAULT_HEADER @ NL
             @ ''chr'' @ TAB @ ''1'' @ TAB @ ''.'' @ TAB @ ''5'' @ TAB @ ''2.0'' @ TAB @ ''2.0''
             @ TAB @ ''0'' @ NL))
       = [''chr'' @ TAB @ ''1'' @ TAB @ ''.'' @ TAB @ ''5'' @ TAB @ ''2.0'' @ TAB @ ''2.0''
             @ TAB @ ''0'']
   \<and> split_go TAB 0 [] (''chr'' @ TAB @ ''1'' @ TAB @ ''.'' @ TAB @ ''5'' @ TAB @ ''2.0'' @ TAB
             @ ''2.0'' @ TAB @ ''0'') ! 2 = ''.''
   \<and> py_int (int_max_str_digits rt0) ''.'' = None"
proof -
  have a: "tl (read_lines txt_one) = [''c_5_A_T'' @ TAB @ ''0.01'']"
    by (simp only: read_one list.sel)
  have o: "row_output rt0 a_chr_tab 0 (Suc 0) (''c_5_A_T'' @ TAB @ ''0.01'')
       = Some (5, NegLog10 (Dec False 1 (- 2)))"
    by (simp add: row_defs a_chr_tab_def sample_defs text_defs safe_neglog10_def)
  have l: "tl (file_lines (DEFAULT_HEADER @ NL
             @ ''chr'' @ TAB @ ''1'' @ TAB @ ''.'' @ TAB @ ''5'' @ TAB @ ''2.0'' @ TAB @ ''2.0''
             @ TAB @ ''0'' @ NL))
       = [''chr'' @ TAB @ ''1'' @ TAB @ ''.'' @ TAB @ ''5'' @ TAB @ ''2.0'' @ TAB @ ''2.0''
             @ TAB @ ''0'']"
    by (simp add: file_lines_def DEFAULT_HEADER_def TAB_def NL_def)
  have s: "split_go TAB 0 [] (''chr'' @ TAB @ ''1'' @ TAB @ ''.'' @ TAB @ ''5'' @ TAB @ ''2.0'' @ TAB
             @ ''2.0'' @ TAB @ ''0'') ! 2 = ''.''"
    by (simp add: TAB_def)
  have p: "py_int (int_max_str_digits rt0) ''.'' = None"
    by (simp add: rt0_def text_defs)
  from main_one_chr a o l s p show ?thesis by blast
qed

lemma plot_row_bp_field:
  assumes "CHR 0x09 \<notin> set (chr_index a)" and "CHR 0x09 \<notin> set (snp_name a)"
  shows "split_go TAB 0 [] (plot_row rt a n x) ! 2 = str_int n"
proof -
  have t: "CHR 0x09 \<notin> set (str_int n)" by (rule str_int_no_tab)
  have "plot_row rt a n x = chr_index a @ TAB @ snp_name a @ TAB @ str_int n @ TAB
      @ (str_float rt x @ TAB @ str_float rt x @ TAB @ r2 a)"
    by (simp add: plot_row_def)
  then have "split_go TAB 0 [] (plot_row rt a n x)
      = chr_index a # snp_name a # str_int n
        # split_go TAB 0 [] (str_float rt x @ TAB @ str_float rt x @ TAB @ r2 a)"
    using assms t by (simp add: split_go_piece split_go_tab)
  then show ?thesis by simp
qed

text \<open>
  Claim C6, as the code has it. On a successful run whose chromosome label and site label
  are plain and whose r2 placeholder holds no newline (and a runtime whose float text is
  plain), the BP field read back from each data line of the written file, its third
  tab-separated field, read with \<^verbatim>\<open>int()\<close>, is the integer of the emitted row that
  the line belongs to, line by line in order; and that integer is the one \<^verbatim>\<open>int()\<close>
  reads in the variant identifier at the configured field index after splitting by the
  configured delimiter. In particular the variant \<^verbatim>\<open>AE017143.1_12345_A_T\<close> with
  delimiter \<^verbatim>\<open>_\<close> and field index 1 gives the position 12345.
\<close>

theorem position_round_trip:
  assumes "files w (pyseer a) = Some txt"
    and "resolve a (read_lines txt) = Inr (var_i, p_i, pc)"
    and "main rt a w = (None, w')"
    and "plain (chr_index a)" and "plain (snp_name a)" and "CHR 0x0A \<notin> set (r2 a)"
    and "float_text_plain rt"
  shows "(\<exists>content. files w' (out a) = Some content
            \<and> map (\<lambda>line. py_int (int_max_str_digits rt) (split_go TAB 0 [] line ! 2))
                  (tl (file_lines content))
                = map (\<lambda>(n, x). Some n)
                    (List.map_filter (row_output rt a var_i p_i) (tl (read_lines txt))))
       \<and> (\<forall>ln n x. ln \<in> set (tl (read_lines txt)) \<longrightarrow> row_output rt a var_i p_i ln = Some (n, x) \<longrightarrow>
            (\<exists>flds bp. py_split (split_go TAB 0 [] ln ! var_i) (variant_delim a) = Some flds
               \<and> py_index flds (bp_field_index a) = Some bp
               \<and> py_int (int_max_str_digits rt) bp = Some n))
       \<and> py_split ''AE017143.1_12345_A_T'' ''_'' = Some [''AE017143.1'', ''12345'', ''A'', ''T'']
       \<and> py_index [''AE017143.1'', ''12345'', ''A'', ''T''] 1 = Some ''12345''
       \<and> py_int 4300 ''12345'' = Some 12345
       \<and> str_int 12345 = ''12345''"
proof -
  from assms(4,5) have nl: "CHR 0x0A \<notin> set (chr_index a)" "CHR 0x0A \<notin> set (snp_name a)"
    and tab: "CHR 0x09 \<notin> set (chr_index a)" "CHR 0x09 \<notin> set (snp_name a)"
    by (simp_all add: plain_def)
  let ?rows = "tl (read_lines txt)"
  let ?outs = "List.map_filter (row_output rt a var_i p_i) ?rows"
  from written_lines [OF assms(1-3) nl assms(6,7)] obtain content
    where c: "files w' (out a) = Some content"
      "file_lines content = DEFAULT_HEADER # map (\<lambda>(n, x). plot_row rt a n x) ?outs"
    by blast
  have mem: "\<exists>ln. ln \<in> set ?rows \<and> row_output rt a var_i p_i ln = Some (n, x)"
    if "(n, x) \<in> set ?outs" for n x
    using that by (auto simp: List.map_filter_def)
  have readback: "py_int (int_max_str_digits rt) (split_go TAB 0 [] (plot_row rt a n x) ! 2) = Some n"
    if "(n, x) \<in> set ?outs" for n x
  proof -
    from mem [OF that] obtain ln where "row_output rt a var_i p_i ln = Some (n, x)" by blast
    from row_output_position [OF this] obtain bp
      where "py_int (int_max_str_digits rt) bp = Some n" by blast
    from py_int_round_trip [OF this] show ?thesis
      by (simp add: plot_row_bp_field [OF tab])
  qed
  have "map (\<lambda>line. py_int (int_max_str_digits rt) (split_go TAB 0 [] line ! 2))
                  (tl (file_lines content))
                = map (\<lambda>(n, x). Some n) ?outs"
    using readback by (auto simp: c(2))
  with c(1) have 1: "\<exists>content. files w' (out a) = Some content
            \<and> map (\<lambda>line. py_int (int_max_str_digits rt) (split_go TAB 0 [] line ! 2))
                  (tl (file_lines content))
                = map (\<lambda>(n, x). Some n) ?outs"
    by blast
  have 2: "\<exists>flds bp. py_split (split_go TAB 0 [] ln ! var_i) (variant_delim a) = Some flds
               \<and> py_index flds (bp_field_index a) = Some bp
               \<and> py_int (int_max_str_digits rt) bp = Some n"
    if "row_output rt a var_i p_i ln = Some (n, x)" for ln n x
    using row_output_position [OF that] by blast
  have 3: "py_split ''AE017143.1_12345_A_T'' ''_'' = Some [''AE017143.1'', ''12345'', ''A'', ''T'']"
    by (simp add: py_split_def)
  have 4: "py_index [''AE017143.1'', ''12345'', ''A'', ''T''] 1 = Some ''12345''"
    by (simp add: py_index_def)
  have 5: "py_int 4300 ''12345'' = Some 12345"
    by (simp add: text_defs)
  have 6: "str_int 12345 = ''12345''"
    by (simp add: text_defs)
  from 1 2 3 4 5 6 show ?thesis by blast
qed

theorem position_round_trip_witness:
  "files (world_of txt_mixed) (pyseer a_lenient) = Some txt_mixed
   \<and> resolve a_lenient (read_lines txt_mixed) = Inr (0, Suc 0, ''pvalue'')
   \<and> fst (main rt0 a_lenient (world_of txt_mixed)) = None
   \<and> plain (chr_index a_lenient) \<and> plain (snp_name a_lenient)
   \<and> CHR 0x0A \<notin> set (r2 a_lenient) \<and> float_text_plain rt0
   \<and> files (snd (main rt0 a_lenient (world_of txt_mixed))) (out a_lenient)
       = Some (DEFAULT_HEADER @ NL @ row_5 @ NL)
   \<and> tl (file_lines (DEFAULT_HEADER @ NL @ row_5 @ NL)) = [row_5]
   \<and> List.map_filter (row_output rt0 a_lenient 0 (Suc 0)) (tl (read_lines txt_mixed))
       = [(5, NegLog10 (Dec False 1 (- 2)))]
   \<and> py_int (int_max_str_digits rt0) (split_go TAB 0 [] row_5 ! 2) = Some 5"
proof -
  have h1: "files (world_of txt_mixed) (pyseer a_lenient) = Some txt_mixed"
    by (simp add: sample_defs)
  have h3: "main rt0 a_lenient (world_of txt_mixed)
      = (None, snd (main rt0 a_lenient (world_of txt_mixed)))"
    by (simp add: main_mixed_lenient)
  have s: "fst (main rt0 a_lenient (world_of txt_mixed)) = None"
    by (simp add: main_mixed_lenient)
  have l: "tl (file_lines (DEFAULT_HEADER @ NL @ row_5 @ NL)) = [row_5]"
    by (simp only: lines_mixed_lenient list.sel)
  have rows: "tl (read_lines txt_mixed) = rows_mixed"
    by (simp only: read_mixed list.sel)
  have outs: "List.map_filter (row_output rt0 a_lenient 0 (Suc 0)) (tl (read_lines txt_mixed))
       = [(5, NegLog10 (Dec False 1 (- 2)))]"
    by (simp only: rows outputs_mixed_lenient)
  from position_round_trip [OF h1 resolve_mixed_lenient h3 plain_lenient(1,2)
      labels_lenient(3) plain_rt0]
  obtain content
    where c: "files (snd (main rt0 a_lenient (world_of txt_mixed))) (out a_lenient) = Some content"
      and e: "map (\<lambda>line. py_int (int_max_str_digits rt0) (split_go TAB 0 [] line ! 2))
                  (tl (file_lines content))
                = map (\<lambda>(n, x). Some n)
                    (List.map_filter (row_output rt0 a_lenient 0 (Suc 0))
                       (tl (read_lines txt_mixed)))"
    by blast
  from c have ceq: "content = DEFAULT_HEADER @ NL @ row_5 @ NL"
    by (simp add: file_mixed_lenient)
  from e have "py_int (int_max_str_digits rt0) (split_go TAB 0 [] row_5 ! 2) = Some 5"
    unfolding ceq l outs by simp
  with h1 resolve_mixed_lenient s plain_lenient(1,2) labels_lenient(3) plain_rt0
    file_mixed_lenient l outs
  show ?thesis by blast
qed

end
